theory Spec2Isabelle
  imports Main
begin

section \<open>Security tiers and the policy resolver\<close>

text \<open>
  The tier registry and the resolver belong to \<^verbatim>\<open>src/core/security-config\<close>. Of that
  module only the tests are at hand (\<^verbatim>\<open>tests/core/base-component.test.ts\<close>, second
  part), so its functions are modelled from the spec.
\<close>

datatype SecurityTier = PUBLIC | AUTHENTICATED | SENSITIVE | CRITICAL

text \<open>A value handed to a function by an untyped caller (\<^verbatim>\<open>null as any\<close> in the tests).\<close>

datatype jsval = JUndefined | JNull | JBool bool | JNum int | JStr string | JArr "jsval list"

fun tierString :: "SecurityTier \<Rightarrow> string" where
  "tierString PUBLIC = ''public''"
| "tierString AUTHENTICATED = ''authenticated''"
| "tierString SENSITIVE = ''sensitive''"
| "tierString CRITICAL = ''critical''"

record RateLimitConfig =
  enabled :: bool
  maxAttempts :: int
  windowMs :: int

record ValidationConfig =
  required :: bool
  strict :: bool
  maxLength :: int

record TierPolicy =
  name :: string
  level :: nat
  rateLimit :: RateLimitConfig
  validation :: ValidationConfig

fun tierName :: "SecurityTier \<Rightarrow> string" where
  "tierName PUBLIC = ''Public''"
| "tierName AUTHENTICATED = ''Authenticated''"
| "tierName SENSITIVE = ''Sensitive''"
| "tierName CRITICAL = ''Critical''"

fun tierLevel :: "SecurityTier \<Rightarrow> nat" where
  "tierLevel PUBLIC = 1"
| "tierLevel AUTHENTICATED = 2"
| "tierLevel SENSITIVE = 3"
| "tierLevel CRITICAL = 4"

text \<open>
  Modelled from the spec: the static table \<^verbatim>\<open>TIER_CONFIG\<close> of security-config.
  The spec fixes the level of each tier (1 to 4, ascending) and the tests its display
  name. The spec lists no numbers for the rate-limit quota and the validation
  defaults of a tier, so they are arguments of the table.
\<close>

definition TIER_CONFIG ::
  "(SecurityTier \<Rightarrow> RateLimitConfig) \<Rightarrow> (SecurityTier \<Rightarrow> ValidationConfig) \<Rightarrow>
   SecurityTier \<Rightarrow> TierPolicy" where
  "TIER_CONFIG quota checks t =
     \<lparr>name = tierName t, level = tierLevel t, rateLimit = quota t, validation = checks t\<rparr>"

text \<open>
  Modelled from the spec: \<^verbatim>\<open>isValidTier\<close> of security-config, true only for the four
  exact lowercase tier strings.
\<close>

definition isValidTier :: "jsval \<Rightarrow> bool" where
  "isValidTier v =
     (case v of
        JStr s \<Rightarrow> s = ''public'' \<or> s = ''authenticated'' \<or> s = ''sensitive'' \<or> s = ''critical''
      | _ \<Rightarrow> False)"

text \<open>
  Modelled from the spec: the tier a value names (section 4.1 of the spec; the resolver
  is part of security-config): the tier of an exact tier string, CRITICAL for anything
  else.
\<close>

definition resolveTier :: "jsval \<Rightarrow> SecurityTier" where
  "resolveTier v =
     (if v = JStr ''public'' then PUBLIC
      else if v = JStr ''authenticated'' then AUTHENTICATED
      else if v = JStr ''sensitive'' then SENSITIVE
      else CRITICAL)"

text \<open>
  Modelled from the spec: \<^verbatim>\<open>getTierConfig\<close> of security-config (the spec's
  \<^verbatim>\<open>resolve\<close>). It has no error path: every value gets a policy.
\<close>

definition getTierConfig ::
  "(SecurityTier \<Rightarrow> RateLimitConfig) \<Rightarrow> (SecurityTier \<Rightarrow> ValidationConfig) \<Rightarrow>
   jsval \<Rightarrow> TierPolicy" where
  "getTierConfig quota checks v = TIER_CONFIG quota checks (resolveTier v)"


section \<open>The base widget\<close>

text \<open>
  The base class \<^verbatim>\<open>SecureBaseComponent\<close> belongs to \<^verbatim>\<open>src/core/base-component\<close>. Of
  that module only the tests and the subclasses are at hand, so its state and its
  methods are modelled from the spec (sections 3 and 4), one definition per method.
\<close>

subsection \<open>Objects, arrays and the environment\<close>

text \<open>
  A string is the list of its code units; a \<open>char\<close> has eight bits, so the code units
  0 to 255 are the ones that can be written.

  A plain object is the list of its own properties in the order in which the
  language enumerates them: the keys that are array indices first, in ascending
  numeric order, then the other keys in the order of their creation. Assigning to a
  key that exists replaces its value in place, as an object literal with a repeated
  key or a spread does.
\<close>

type_synonym jsobj = "(string \<times> jsval) list"

definition isDigit :: "char \<Rightarrow> bool" where
  "isDigit c = (c \<in> set ''0123456789'')"

text \<open>The integer that a run of decimal digits writes.\<close>

definition decimal :: "string \<Rightarrow> int" where
  "decimal ds = foldl (\<lambda>a c. 10 * a + (of_char c - 48)) 0 ds"

text \<open>
  An array index: the canonical decimal numeral of an integer from 0 to \<open>2^32 - 2\<close>.
\<close>

definition isIndexKey :: "string \<Rightarrow> bool" where
  "isIndexKey k =
     (k \<noteq> [] \<and> list_all isDigit k \<and> (if hd k = CHR ''0'' then k = ''0'' else True) \<and>
      length k \<le> 10 \<and> decimal k < 4294967295)"

fun setProp :: "string \<Rightarrow> jsval \<Rightarrow> jsobj \<Rightarrow> jsobj" where
  "setProp k v [] = [(k, v)]"
| "setProp k v ((k', v') # ps) =
     (if k = k' then (k, v) # ps
      else if isIndexKey k \<and> (if isIndexKey k' then decimal k < decimal k' else True)
      then (k, v) # (k', v') # ps
      else (k', v') # setProp k v ps)"

definition getProp :: "jsobj \<Rightarrow> string \<Rightarrow> jsval" where
  "getProp obj k = (case map_of obj k of Some v \<Rightarrow> v | None \<Rightarrow> JUndefined)"

text \<open>\<^verbatim>\<open>{...obj, ...src}\<close>: the properties of \<^verbatim>\<open>src\<close> are assigned in order.\<close>

definition spread :: "jsobj \<Rightarrow> jsobj \<Rightarrow> jsobj" where
  "spread obj src = fold (\<lambda>(k, v). setProp k v) src obj"

text \<open>
  Objects and arrays have identity. The environment holds every object and every
  array under its address; an array holds the addresses of its elements, so two
  arrays can hold the same object. A new object or array takes the next address of
  its kind. The environment also records what reaches the console and the events
  dispatched on the element, each with the address of its detail object.
\<close>

type_synonym addr = nat

record Env =
  objects :: "jsobj list"
  arrays :: "addr list list"
  console :: "string list"
  dispatched :: "(string \<times> addr) list"

definition newObject :: "jsobj \<Rightarrow> Env \<Rightarrow> Env \<times> addr" where
  "newObject obj env = (env\<lparr>objects := objects env @ [obj]\<rparr>, length (objects env))"

definition newArray :: "addr list \<Rightarrow> Env \<Rightarrow> Env \<times> addr" where
  "newArray xs env = (env\<lparr>arrays := arrays env @ [xs]\<rparr>, length (arrays env))"

text \<open>
  What code holding the array at address \<open>a\<close> can do to it (push, pop, splice,
  sort, assignment to a slot or to \<^verbatim>\<open>length\<close>): replace its contents by a function of
  them. What code holding the object at address \<open>e\<close> can do to it (assign to a
  property, delete one): replace its properties by a function of them.
\<close>

definition mutateArray :: "addr \<Rightarrow> (addr list \<Rightarrow> addr list) \<Rightarrow> Env \<Rightarrow> Env" where
  "mutateArray a f env = env\<lparr>arrays := (arrays env)[a := f (arrays env ! a)]\<rparr>"

definition mutateObject :: "addr \<Rightarrow> (jsobj \<Rightarrow> jsobj) \<Rightarrow> Env \<Rightarrow> Env" where
  "mutateObject e g env = env\<lparr>objects := (objects env)[e := g (objects env ! e)]\<rparr>"

text \<open>The elements of the array at address \<open>a\<close>, read through their addresses.\<close>

definition elements :: "addr \<Rightarrow> Env \<Rightarrow> jsobj list" where
  "elements a env = map (\<lambda>e. objects env ! e) (arrays env ! a)"

subsection \<open>Instance state\<close>

record RateLimitState =
  count :: int
  windowStart :: int

record WidgetInstance =
  attributes :: "string \<rightharpoonup> string"
  securityTier :: SecurityTier
  config :: TierPolicy
  initialized :: bool
  rateLimitState :: RateLimitState
  auditLog :: addr

text \<open>
  The two methods every subclass implements. A subclass keeps its own fields in a
  state of type \<open>'x\<close>; \<^verbatim>\<open>render\<close> and \<^verbatim>\<open>handleAttributeChange\<close> read the base
  state and update the subclass state.
\<close>

record 'x Widget =
  render :: "WidgetInstance \<Rightarrow> 'x \<Rightarrow> 'x"
  handleAttributeChange ::
    "string \<Rightarrow> string option \<Rightarrow> string option \<Rightarrow> WidgetInstance \<Rightarrow> 'x \<Rightarrow> 'x"

definition getAttribute :: "WidgetInstance \<Rightarrow> string \<Rightarrow> jsval" where
  "getAttribute w k = (case attributes w k of Some v \<Rightarrow> JStr v | None \<Rightarrow> JNull)"

definition hasAttribute :: "WidgetInstance \<Rightarrow> string \<Rightarrow> bool" where
  "hasAttribute w k = (attributes w k \<noteq> None)"

subsection \<open>Lifecycle\<close>

text \<open>
  Modelled from the spec: \<^verbatim>\<open>connectedCallback\<close> of base-component (section 4.2). On the
  first connection the tier is resolved from the \<^verbatim>\<open>security-tier\<close> attribute, the policy
  is looked up, the subclass renders and the guard is set. A later connection finds
  the guard set and does nothing.
\<close>

definition connectedCallback ::
  "(SecurityTier \<Rightarrow> RateLimitConfig) \<Rightarrow> (SecurityTier \<Rightarrow> ValidationConfig) \<Rightarrow>
   'x Widget \<Rightarrow> WidgetInstance \<times> 'x \<Rightarrow> WidgetInstance \<times> 'x" where
  "connectedCallback quota checks m s =
     (case s of (w, x) \<Rightarrow>
        if initialized w then (w, x)
        else
          let tierAttr = getAttribute w ''security-tier'';
              w1 = w\<lparr>securityTier := resolveTier tierAttr,
                     config := getTierConfig quota checks tierAttr\<rparr>;
              x1 = render m w1 x
          in (w1\<lparr>initialized := True\<rparr>, x1))"

text \<open>
  Modelled from the spec: \<^verbatim>\<open>disconnectedCallback\<close> of base-component. The rate-limiter
  state is cleared and the guard is kept. The spec does not say which window start the
  cleared state carries; the model takes the clock reading, as a window reset does.
\<close>

definition disconnectedCallback :: "int \<Rightarrow> WidgetInstance \<Rightarrow> WidgetInstance" where
  "disconnectedCallback now w = w\<lparr>rateLimitState := \<lparr>count = 0, windowStart = now\<rparr>\<rparr>"

text \<open>
  Modelled from the spec: \<^verbatim>\<open>rerender\<close> of base-component: the subclass renders again
  and the shadow content is replaced.
\<close>

definition rerender :: "'x Widget \<Rightarrow> WidgetInstance \<times> 'x \<Rightarrow> WidgetInstance \<times> 'x" where
  "rerender m s = (case s of (w, x) \<Rightarrow> (w, render m w x))"

text \<open>
  A write to an attribute through the element's own interface, \<^verbatim>\<open>setAttribute\<close> for a
  string and \<^verbatim>\<open>removeAttribute\<close> for \<^verbatim>\<open>null\<close>: the attribute is written, then the
  element is notified with the value the attribute had and the new one, also when the
  two are equal. Removing an attribute that is absent does nothing. The notification
  runs inside the write, which returns when the notification has returned.
\<close>

definition writeAttribute ::
  "(string option \<Rightarrow> string option \<Rightarrow> Env \<times> WidgetInstance \<times> 'x \<Rightarrow> (Env \<times> WidgetInstance \<times> 'x) option) \<Rightarrow>
   string \<Rightarrow> string option \<Rightarrow> Env \<times> WidgetInstance \<times> 'x \<Rightarrow> (Env \<times> WidgetInstance \<times> 'x) option" where
  "writeAttribute notify attr v s =
     (case s of (env, w, x) \<Rightarrow>
        if v = None \<and> attributes w attr = None then Some (env, w, x)
        else notify (attributes w attr) v (env, w\<lparr>attributes := (attributes w)(attr := v)\<rparr>, x))"

text \<open>
  Modelled from the spec: \<^verbatim>\<open>attributeChangedCallback\<close> of base-component (section 4.2).
  After initialisation a change of the tier attribute is answered by a console warning
  and by setting the attribute back to the value it had; the resolved tier is not
  touched. Any other notification is forwarded to the subclass. The test file says of
  this method (\<^verbatim>\<open>base-component.test.ts\<close>, in the test of the warning) that it
  ``calls setAttribute to revert'', so the restoring write goes through the element's
  interface and is notified like any other write. An attribute that was absent before
  the change is restored by removing it.

  The callback can call itself through that write, so it is defined by recursion on
  the depth of nested calls it may still open: with none left the result is \<open>None\<close>,
  and a call returns when some depth gives \<open>Some\<close> state.
\<close>

definition tierWarning :: string where
  "tierWarning = ''Security tier cannot be changed after initialization''"

primrec attributeChangedCallback ::
  "nat \<Rightarrow> 'x Widget \<Rightarrow> string \<Rightarrow> string option \<Rightarrow> string option \<Rightarrow>
   Env \<times> WidgetInstance \<times> 'x \<Rightarrow> (Env \<times> WidgetInstance \<times> 'x) option" where
  "attributeChangedCallback 0 m attr oldValue newValue s = None"
| "attributeChangedCallback (Suc depth) m attr oldValue newValue s =
     (case s of (env, w, x) \<Rightarrow>
        if attr = ''security-tier'' \<and> initialized w then
          writeAttribute (attributeChangedCallback depth m attr) attr oldValue
            (env\<lparr>console := console env @ [tierWarning]\<rparr>, w, x)
        else if attr = ''security-tier'' then Some (env, w, x)
        else Some (env, w, handleAttributeChange m attr oldValue newValue w x))"

text \<open>\<^verbatim>\<open>setAttribute\<close> and \<^verbatim>\<open>removeAttribute\<close> of a widget.\<close>

definition setAttribute ::
  "nat \<Rightarrow> 'x Widget \<Rightarrow> string \<Rightarrow> string \<Rightarrow>
   Env \<times> WidgetInstance \<times> 'x \<Rightarrow> (Env \<times> WidgetInstance \<times> 'x) option" where
  "setAttribute depth m attr v s = writeAttribute (attributeChangedCallback depth m attr) attr (Some v) s"

definition removeAttribute ::
  "nat \<Rightarrow> 'x Widget \<Rightarrow> string \<Rightarrow>
   Env \<times> WidgetInstance \<times> 'x \<Rightarrow> (Env \<times> WidgetInstance \<times> 'x) option" where
  "removeAttribute depth m attr s = writeAttribute (attributeChangedCallback depth m attr) attr None s"

subsection \<open>Rate limiter\<close>

record RateLimitResult =
  allowed :: bool
  retryAfter :: int

text \<open>
  Modelled from the spec: \<^verbatim>\<open>checkRateLimit\<close> of base-component (section 4.3), a fixed
  window counter. \<open>now\<close> is the clock reading of the call, in milliseconds.
\<close>

definition checkRateLimit :: "int \<Rightarrow> WidgetInstance \<Rightarrow> WidgetInstance \<times> RateLimitResult" where
  "checkRateLimit now w =
     (let rl = rateLimit (config w);
          st = rateLimitState w;
          st1 = (if now - windowStart st > windowMs rl
                 then \<lparr>count = 0, windowStart = now\<rparr> else st);
          st2 = st1\<lparr>count := count st1 + 1\<rparr>;
          w' = w\<lparr>rateLimitState := st2\<rparr>
      in if \<not> enabled rl then (w', \<lparr>allowed = True, retryAfter = 0\<rparr>)
         else if count st2 \<le> maxAttempts rl then (w', \<lparr>allowed = True, retryAfter = 0\<rparr>)
         else (w', \<lparr>allowed = False, retryAfter = windowMs rl - (now - windowStart st2)\<rparr>))"

text \<open>A run of calls at the given clock readings: the final state and the results in order.\<close>

fun checkRateLimits :: "int list \<Rightarrow> WidgetInstance \<Rightarrow> WidgetInstance \<times> RateLimitResult list" where
  "checkRateLimits [] w = (w, [])"
| "checkRateLimits (t # ts) w =
     (case checkRateLimit t w of (w1, r) \<Rightarrow>
        (case checkRateLimits ts w1 of (w2, rs) \<Rightarrow> (w2, r # rs)))"

subsection \<open>Sanitizer and validator\<close>

text \<open>
  Modelled from the spec: \<^verbatim>\<open>sanitizeValue\<close> of base-component (section 4.4). A value
  that is not a string gives the empty string. For a string, the test file says how
  the method encodes (\<^verbatim>\<open>base-component.test.ts\<close>, test of the script tags): it ``uses
  textContent assignment which HTML-encodes'', that is, the string becomes the text of
  an element and the element's markup is read back. The markup of a text node writes
  the ampersand, the less-than sign, the greater-than sign and the no-break space as
  entities and every other character, the two quotation marks among them, as itself.
\<close>

definition encodeChar :: "char \<Rightarrow> string" where
  "encodeChar c =
     (if c = CHR ''&'' then ''&amp;''
      else if c = CHR ''<'' then ''&lt;''
      else if c = CHR ''>'' then ''&gt;''
      else if c = CHR 0xA0 then ''&nbsp;''
      else [c])"

text \<open>\<^verbatim>\<open>typeof v === 'string'\<close>.\<close>

definition isString :: "jsval \<Rightarrow> bool" where
  "isString v = (case v of JStr s \<Rightarrow> True | _ \<Rightarrow> False)"

definition sanitizeValue :: "jsval \<Rightarrow> string" where
  "sanitizeValue raw = (case raw of JStr s \<Rightarrow> concat (map encodeChar s) | _ \<Rightarrow> [])"

text \<open>\<^verbatim>\<open>s.startsWith(p)\<close> and \<^verbatim>\<open>s.includes(p)\<close>.\<close>

fun startsWith :: "string \<Rightarrow> string \<Rightarrow> bool" where
  "startsWith s [] = True"
| "startsWith [] (p # ps) = False"
| "startsWith (c # cs) (p # ps) = (c = p \<and> startsWith cs ps)"

fun includes_str :: "string \<Rightarrow> string \<Rightarrow> bool" where
  "includes_str [] p = (p = [])"
| "includes_str (c # cs) p = (startsWith (c # cs) p \<or> includes_str cs p)"

text \<open>
  The constraints a widget passes to \<^verbatim>\<open>validateInput\<close>; each may be left out. A
  pattern is the test of a regular expression.
\<close>

record Constraints =
  c_required :: "bool option"
  c_minLength :: "int option"
  c_maxLength :: "int option"
  c_pattern :: "(string \<Rightarrow> bool) option"

text \<open>
  The message of each check. The tests pin the first text
  (\<^verbatim>\<open>This field is required\<close>) and a fragment of each of the others
  (\<^verbatim>\<open>at least n\<close>, \<^verbatim>\<open>maximum length\<close>, \<^verbatim>\<open>format\<close>).
\<close>

datatype ValidationMessage =
  RequiredMessage
  | MinLengthMessage int
  | MaxLengthMessage int
  | PatternMessage

record ValidationResult =
  valid :: bool
  errors :: "ValidationMessage list"

text \<open>
  Modelled from the spec: \<^verbatim>\<open>validateInput\<close> of base-component (section 4.4). The four
  checks run one after the other on a growing list of messages; \<^verbatim>\<open>required\<close> and
  \<^verbatim>\<open>maxLength\<close> come from the tier policy when the constraints leave them out.
\<close>

definition validateInput :: "string \<Rightarrow> Constraints \<Rightarrow> WidgetInstance \<Rightarrow> ValidationResult" where
  "validateInput v opts w =
     (let req = (case c_required opts of Some r \<Rightarrow> r | None \<Rightarrow> required (validation (config w)));
          maxLen = (case c_maxLength opts of Some n \<Rightarrow> n | None \<Rightarrow> maxLength (validation (config w)));
          errors0 = [];
          errors1 = (if req \<and> v = [] then errors0 @ [RequiredMessage] else errors0);
          errors2 = (case c_minLength opts of
                       Some n \<Rightarrow> if int (length v) < n then errors1 @ [MinLengthMessage n] else errors1
                     | None \<Rightarrow> errors1);
          errors3 = (if int (length v) > maxLen then errors2 @ [MaxLengthMessage maxLen] else errors2);
          errors4 = (case c_pattern opts of
                       Some p \<Rightarrow> if \<not> p v then errors3 @ [PatternMessage] else errors3
                     | None \<Rightarrow> errors3)
      in \<lparr>valid = (errors4 = []), errors = errors4\<rparr>)"

subsection \<open>Audit log\<close>

text \<open>
  \<^verbatim>\<open>new Date(t).toISOString()\<close> for a time value \<open>t\<close> in milliseconds since the epoch:
  the civil date of the day number, then the time of day. Years outside 0 to 9999 are
  written with a sign and six digits.
\<close>

definition digitChar :: "int \<Rightarrow> char" where
  "digitChar n = ''0123456789'' ! nat (n mod 10)"

definition pad2 :: "int \<Rightarrow> string" where
  "pad2 n = [digitChar (n div 10), digitChar n]"

definition pad3 :: "int \<Rightarrow> string" where
  "pad3 n = [digitChar (n div 100), digitChar (n div 10), digitChar n]"

definition pad4 :: "int \<Rightarrow> string" where
  "pad4 n = digitChar (n div 1000) # pad3 n"

definition pad6 :: "int \<Rightarrow> string" where
  "pad6 n = digitChar (n div 100000) # digitChar (n div 10000) # pad4 n"

definition yearString :: "int \<Rightarrow> string" where
  "yearString y =
     (if 0 \<le> y \<and> y \<le> 9999 then pad4 y
      else if y < 0 then CHR ''-'' # pad6 (- y)
      else CHR ''+'' # pad6 y)"

definition toISOString :: "int \<Rightarrow> string" where
  "toISOString t =
     (let day = t div 86400000;
          ms = t mod 86400000;
          z = day + 719468;
          era = z div 146097;
          doe = z mod 146097;
          yoe = (doe - doe div 1460 + doe div 36524 - doe div 146096) div 365;
          doy = doe - (365 * yoe + yoe div 4 - yoe div 100);
          mp = (5 * doy + 2) div 153;
          d = doy - (153 * mp + 2) div 5 + 1;
          m = (if mp < 10 then mp + 3 else mp - 9);
          y = yoe + era * 400 + (if m \<le> 2 then 1 else 0)
      in yearString y @ ''-'' @ pad2 m @ ''-'' @ pad2 d @ ''T''
         @ pad2 (ms div 3600000) @ '':'' @ pad2 (ms div 60000 mod 60) @ '':''
         @ pad2 (ms div 1000 mod 60) @ ''.'' @ pad3 (ms mod 1000) @ ''Z'')"

text \<open>
  The shape of an ISO-8601 date-time in UTC as \<^verbatim>\<open>toISOString\<close> writes it: in a
  pattern, \<open>d\<close> stands for a decimal digit and every other character for itself.
\<close>

fun matchesShape :: "string \<Rightarrow> string \<Rightarrow> bool" where
  "matchesShape [] [] = True"
| "matchesShape (p # ps) (c # cs) =
     ((if p = CHR ''d'' then isDigit c else c = p) \<and> matchesShape ps cs)"
| "matchesShape _ _ = False"

definition isISO8601 :: "string \<Rightarrow> bool" where
  "isISO8601 s =
     (matchesShape ''dddd-dd-ddTdd:dd:dd.dddZ'' s
      \<or> matchesShape ''+dddddd-dd-ddTdd:dd:dd.dddZ'' s
      \<or> matchesShape ''-dddddd-dd-ddTdd:dd:dd.dddZ'' s)"

text \<open>
  Modelled from the spec: \<^verbatim>\<open>audit\<close> of base-component (section 4.5). The entry is the
  new object \<^verbatim>\<open>{event, timestamp, tier, ...data}\<close>; it is pushed on the instance's log
  array and dispatched as the detail of a \<^verbatim>\<open>secure-audit\<close> event.
\<close>

definition auditEntry :: "string \<Rightarrow> jsobj \<Rightarrow> int \<Rightarrow> WidgetInstance \<Rightarrow> jsobj" where
  "auditEntry ev data now w =
     spread [(''event'', JStr ev),
             (''timestamp'', JStr (toISOString now)),
             (''tier'', JStr (tierString (securityTier w)))] data"

definition audit :: "string \<Rightarrow> jsobj \<Rightarrow> int \<Rightarrow> WidgetInstance \<Rightarrow> Env \<Rightarrow> Env" where
  "audit ev data now w env =
     (case newObject (auditEntry ev data now w) env of
        (env1, entry) \<Rightarrow>
          let env2 = mutateArray (auditLog w) (\<lambda>xs. xs @ [entry]) env1
          in env2\<lparr>dispatched := dispatched env2 @ [(''secure-audit'', entry)]\<rparr>)"

text \<open>
  Modelled from the spec: \<^verbatim>\<open>getAuditLog\<close> of base-component, a shallow copy of the log:
  a new array that holds the same entry objects. The result is the address of the new
  array.
\<close>

definition getAuditLog :: "WidgetInstance \<Rightarrow> Env \<Rightarrow> Env \<times> addr" where
  "getAuditLog w env = newArray (arrays env ! auditLog w) env"

text \<open>Modelled from the spec: \<^verbatim>\<open>clearAuditLog\<close> of base-component empties the log in place.\<close>

definition clearAuditLog :: "WidgetInstance \<Rightarrow> Env \<Rightarrow> Env" where
  "clearAuditLog w env = mutateArray (auditLog w) (\<lambda>_. []) env"

text \<open>
  A caller working on an array it holds: a sequence of mutations of that array. And a
  caller working on the element in slot \<open>i\<close> of an array it holds, as in
  \<^verbatim>\<open>log[i].tier = ...\<close>.
\<close>

definition callerMutates :: "addr \<Rightarrow> (addr list \<Rightarrow> addr list) list \<Rightarrow> Env \<Rightarrow> Env" where
  "callerMutates a fs env = fold (mutateArray a) fs env"

definition callerMutatesElement :: "addr \<Rightarrow> nat \<Rightarrow> (jsobj \<Rightarrow> jsobj) \<Rightarrow> Env \<Rightarrow> Env" where
  "callerMutatesElement a i g env =
     (if i < length (arrays env ! a) then mutateObject (arrays env ! a ! i) g env else env)"

subsection \<open>The test component\<close>

text \<open>
  \<^verbatim>\<open>TestComponent\<close> of \<^verbatim>\<open>tests/core/base-component.test.ts\<close>: it counts the calls of
  \<^verbatim>\<open>render\<close> and keeps the last attribute change it was told of.
\<close>

record TestComponent =
  renderCallCount :: nat
  lastAttributeChange :: "(string \<times> string option \<times> string option) option"

definition TestComponent_methods :: "TestComponent Widget" where
  "TestComponent_methods =
     \<lparr>render = (\<lambda>w x. x\<lparr>renderCallCount := renderCallCount x + 1\<rparr>),
      handleAttributeChange =
        (\<lambda>attr oldValue newValue w x. x\<lparr>lastAttributeChange := Some (attr, oldValue, newValue)\<rparr>)\<rparr>"

section \<open>The secure-select widget\<close>

text \<open>
  \<^verbatim>\<open>src/components/secure-select/secure-select.ts\<close>. The label, the style sheet and the
  autocomplete attribute are presentation and are left out; everything the methods
  below read or write is kept.
\<close>

subsection \<open>The native select element\<close>

text \<open>
  The internal \<^verbatim>\<open><select>\<close> with its options in tree order. \<open>sel_size\<close> is the
  element's \<^verbatim>\<open>size\<close> attribute: \<open>None\<close> while the attribute is absent, and the number
  written once \<^verbatim>\<open>select.size\<close> has been assigned. \<open>sel_errorClass\<close> stands for the
  \<^verbatim>\<open>error\<close> class together with \<^verbatim>\<open>aria-invalid\<close>, which are set and removed together.
\<close>

record OptionEl =
  opt_value :: string
  opt_text :: string
  opt_selected :: bool
  opt_disabled :: bool

record SelectEl =
  sel_options :: "OptionEl list"
  sel_name :: string
  sel_required :: bool
  sel_multiple :: bool
  sel_size :: "nat option"
  sel_disabled :: bool
  sel_errorClass :: bool

definition createSelect :: SelectEl where
  "createSelect =
     \<lparr>sel_options = [], sel_name = [], sel_required = False, sel_multiple = False,
      sel_size = None, sel_disabled = False, sel_errorClass = False\<rparr>"

text \<open>
  The display size: the number of the \<^verbatim>\<open>size\<close> attribute if the element has one,
  also when that number is 0; without the attribute, 4 for a multiple select and 1
  otherwise.
\<close>

definition displaySize :: "SelectEl \<Rightarrow> nat" where
  "displaySize sel =
     (case sel_size sel of
        Some n \<Rightarrow> n
      | None \<Rightarrow> if sel_multiple sel then 4 else 1)"

fun selectFirstEnabled :: "OptionEl list \<Rightarrow> OptionEl list" where
  "selectFirstEnabled [] = []"
| "selectFirstEnabled (opt # opts) =
     (if opt_disabled opt then opt # selectFirstEnabled opts
      else opt\<lparr>opt_selected := True\<rparr> # opts)"

fun keepLastSelected :: "OptionEl list \<Rightarrow> OptionEl list" where
  "keepLastSelected [] = []"
| "keepLastSelected (opt # opts) =
     (if list_ex opt_selected opts then opt\<lparr>opt_selected := False\<rparr> # keepLastSelected opts
      else opt # opts)"

text \<open>
  The selectedness setting algorithm of the element, run when options are inserted
  or removed and when an option asks for a reset.
\<close>

definition selectednessSetting :: "SelectEl \<Rightarrow> SelectEl" where
  "selectednessSetting sel =
     (if sel_multiple sel then sel
      else if displaySize sel = 1 \<and> \<not> list_ex opt_selected (sel_options sel)
      then sel\<lparr>sel_options := selectFirstEnabled (sel_options sel)\<rparr>
      else sel\<lparr>sel_options := keepLastSelected (sel_options sel)\<rparr>)"

definition deselectAll :: "OptionEl list \<Rightarrow> OptionEl list" where
  "deselectAll opts = map (\<lambda>opt. opt\<lparr>opt_selected := False\<rparr>) opts"

text \<open>
  \<^verbatim>\<open>select.appendChild(option)\<close>: in a single select an option that arrives selected
  deselects the others.
\<close>

definition appendChild :: "OptionEl \<Rightarrow> SelectEl \<Rightarrow> SelectEl" where
  "appendChild opt sel =
     selectednessSetting
       (sel\<lparr>sel_options :=
          (if opt_selected opt \<and> \<not> sel_multiple sel then deselectAll (sel_options sel)
           else sel_options sel) @ [opt]\<rparr>)"

text \<open>\<^verbatim>\<open>select.removeChild\<close> of the first option that satisfies \<open>P\<close>.\<close>

fun removeFirst :: "('a \<Rightarrow> bool) \<Rightarrow> 'a list \<Rightarrow> 'a list" where
  "removeFirst P [] = []"
| "removeFirst P (x # xs) = (if P x then xs else x # removeFirst P xs)"

definition removeChild :: "(OptionEl \<Rightarrow> bool) \<Rightarrow> SelectEl \<Rightarrow> SelectEl" where
  "removeChild P sel = selectednessSetting (sel\<lparr>sel_options := removeFirst P (sel_options sel)\<rparr>)"

text \<open>
  \<^verbatim>\<open>select.value\<close>: the value of the first selected option, or the empty string.
\<close>

definition selectValue :: "SelectEl \<Rightarrow> string" where
  "selectValue sel =
     (case find opt_selected (sel_options sel) of Some opt \<Rightarrow> opt_value opt | None \<Rightarrow> [])"

fun selectFirstWith :: "(OptionEl \<Rightarrow> bool) \<Rightarrow> OptionEl list \<Rightarrow> OptionEl list" where
  "selectFirstWith P [] = []"
| "selectFirstWith P (opt # opts) =
     (if P opt then opt\<lparr>opt_selected := True\<rparr> # opts else opt # selectFirstWith P opts)"

text \<open>
  \<^verbatim>\<open>select.value = v\<close>: every option is deselected, then the first option whose value
  is \<open>v\<close> is selected; when there is none, nothing is selected.
\<close>

definition setSelectValue :: "string \<Rightarrow> SelectEl \<Rightarrow> SelectEl" where
  "setSelectValue v sel =
     sel\<lparr>sel_options := selectFirstWith (\<lambda>opt. opt_value opt = v) (deselectAll (sel_options sel))\<rparr>"

text \<open>
  \<^verbatim>\<open>opt.selected = true\<close> for the first option that satisfies \<open>P\<close>; in a single select
  the others are deselected.
\<close>

definition selectOption :: "(OptionEl \<Rightarrow> bool) \<Rightarrow> SelectEl \<Rightarrow> SelectEl" where
  "selectOption P sel =
     (if list_ex P (sel_options sel) then
        selectednessSetting
          (sel\<lparr>sel_options :=
             selectFirstWith P
               (if sel_multiple sel then sel_options sel else deselectAll (sel_options sel))\<rparr>)
      else sel)"

text \<open>\<^verbatim>\<open>opt.selected = false\<close> for every option, one after the other.\<close>

definition deselectEach :: "SelectEl \<Rightarrow> SelectEl" where
  "deselectEach sel =
     fold (\<lambda>i s. selectednessSetting
                   (s\<lparr>sel_options := (sel_options s)[i := (sel_options s ! i)\<lparr>opt_selected := False\<rparr>]\<rparr>))
          [0..<length (sel_options sel)] sel"

subsection \<open>Strings and numbers of the platform\<close>

text \<open>
  White space as \<^verbatim>\<open>trim\<close> and \<^verbatim>\<open>parseInt\<close> strip it: tab, line feed, vertical tab,
  form feed, carriage return, space and no-break space. The further white space
  characters of the language lie above code unit 255.
\<close>

definition isWhite :: "char \<Rightarrow> bool" where
  "isWhite c = (c \<in> set [CHR 0x20, CHR 0x09, CHR 0x0A, CHR 0x0B, CHR 0x0C, CHR 0x0D, CHR 0xA0])"

definition trim :: "string \<Rightarrow> string" where
  "trim s = rev (dropWhile isWhite (rev (dropWhile isWhite s)))"

fun splitOn :: "char \<Rightarrow> string \<Rightarrow> string list" where
  "splitOn c [] = [[]]"
| "splitOn c (x # xs) =
     (if x = c then [] # splitOn c xs
      else (case splitOn c xs of y # ys \<Rightarrow> (x # y) # ys | [] \<Rightarrow> [[x]]))"

fun joinWith :: "string \<Rightarrow> string list \<Rightarrow> string" where
  "joinWith sep [] = []"
| "joinWith sep [x] = x"
| "joinWith sep (x # y # ys) = x @ sep @ joinWith sep (y # ys)"

text \<open>
  The numbers a \<^verbatim>\<open>parseInt\<close> can return: \<^verbatim>\<open>NaN\<close>, an infinity with its sign
  (\<open>True\<close> for the negative one), or a double whose value is an integer.
\<close>

datatype jsnumber = NaN | Infinity bool | Integral int

text \<open>The number of binary digits of a positive integer.\<close>

function bitLength :: "int \<Rightarrow> nat" where
  "bitLength n = (if n \<le> 0 then 0 else Suc (bitLength (n div 2)))"
  by pat_completeness auto

termination bitLength
  by (relation "measure nat") auto

declare bitLength.simps [simp del]

text \<open>
  The double nearest to an integer that is not negative, ties going to the even
  significand of 53 bits; \<open>None\<close> when the result is beyond the largest double, that
  is, when it has more than 1024 binary digits.
\<close>

definition roundToDouble :: "int \<Rightarrow> int option" where
  "roundToDouble n =
     (let e = bitLength n - 53;
          q = n div 2 ^ e;
          r = n mod 2 ^ e;
          q1 = (if 2 ^ e < 2 * r \<or> (2 * r = 2 ^ e \<and> odd q) then q + 1 else q);
          m = q1 * 2 ^ e
      in if 1024 < bitLength m then None else Some m)"

text \<open>
  \<^verbatim>\<open>parseInt(s, 10)\<close>: leading white space is skipped, a sign is read, then the longest
  run of decimal digits, and the integer they write is rounded to a double. Without a
  digit the result is \<^verbatim>\<open>NaN\<close>.
\<close>

definition parseInt10 :: "string \<Rightarrow> jsnumber" where
  "parseInt10 s =
     (let t = dropWhile isWhite s;
          neg = (case t of c # r \<Rightarrow> c = CHR ''-'' | [] \<Rightarrow> False);
          u = (case t of c # r \<Rightarrow> if c = CHR ''-'' \<or> c = CHR ''+'' then r else t | [] \<Rightarrow> []);
          ds = takeWhile isDigit u
      in if ds = [] then NaN
         else (case roundToDouble (decimal ds) of
                 None \<Rightarrow> Infinity neg
               | Some m \<Rightarrow> Integral (if neg then - m else m)))"

text \<open>
  \<^verbatim>\<open>select.size = n\<close>: the number is converted to an unsigned long, \<^verbatim>\<open>NaN\<close> and the
  infinities to 0 and an integer modulo \<open>2^32\<close>; a result above \<open>2^31 - 1\<close> is replaced
  by the default 0. The attribute is written in every case.
\<close>

definition toSelectSize :: "jsnumber \<Rightarrow> nat" where
  "toSelectSize n =
     (case n of
        Integral k \<Rightarrow> (let m = k mod 4294967296 in if m \<le> 2147483647 then nat m else 0)
      | _ \<Rightarrow> 0)"

subsection \<open>State of a secure-select\<close>

datatype JSError = TypeError

text \<open>
  An \<^verbatim>\<open><option>\<close> child of the host element (the light DOM), as
  \<^verbatim>\<open>this.querySelectorAll('option')\<close> finds it.
\<close>

record LightOption =
  lo_value :: "string option"
  lo_textContent :: string
  lo_selected :: bool
  lo_disabled :: bool

record ErrorContainer =
  ec_textContent :: string
  ec_hidden :: bool

record SecureSelect =
  selectElement :: "SelectEl option"
  errorContainer :: "ErrorContainer option"
  validOptions :: "string set"
  optionsTransferred :: bool
  isMultiple :: bool
  lightOptions :: "LightOption list"
  microtasks :: nat

text \<open>
  A method that may throw returns the state it leaves behind and the error, if any.
  \<open>andThen\<close> runs the next statement unless the previous one threw.
\<close>

definition andThen :: "'s \<times> JSError option \<Rightarrow> ('s \<Rightarrow> 's \<times> JSError option) \<Rightarrow> 's \<times> JSError option" where
  "andThen r f = (case r of (s, None) \<Rightarrow> f s | (s, Some e) \<Rightarrow> (s, Some e))"

fun forEach :: "('a \<Rightarrow> 's \<Rightarrow> 's \<times> JSError option) \<Rightarrow> 'a list \<Rightarrow> 's \<Rightarrow> 's \<times> JSError option" where
  "forEach f [] s = (s, None)"
| "forEach f (a # as) s = andThen (f a s) (forEach f as)"

text \<open>\<^verbatim>\<open>this.#selectElement!\<close> used to update the element: a null element throws.\<close>

definition withSelect :: "(SelectEl \<Rightarrow> SelectEl) \<Rightarrow> SecureSelect \<Rightarrow> SecureSelect \<times> JSError option" where
  "withSelect f x =
     (case selectElement x of
        None \<Rightarrow> (x, Some TypeError)
      | Some sel \<Rightarrow> (x\<lparr>selectElement := Some (f sel)\<rparr>, None))"

subsection \<open>Rendering\<close>

text \<open>\<^verbatim>\<open>#applySelectAttributes\<close>, on the element just created.\<close>

definition applySelectAttributes :: "WidgetInstance \<Rightarrow> SelectEl \<Rightarrow> SelectEl" where
  "applySelectAttributes w sel =
     (let sel1 = (case attributes w ''name'' of
                    Some n \<Rightarrow> if n \<noteq> [] then sel\<lparr>sel_name := sanitizeValue (JStr n)\<rparr> else sel
                  | None \<Rightarrow> sel);
          sel2 = (if hasAttribute w ''required'' \<or> required (validation (config w))
                  then sel1\<lparr>sel_required := True\<rparr> else sel1);
          sel3 = (if hasAttribute w ''multiple'' then sel2\<lparr>sel_multiple := True\<rparr> else sel2);
          sel4 = (case attributes w ''size'' of
                    Some n \<Rightarrow> if n \<noteq> [] then sel3\<lparr>sel_size := Some (toSelectSize (parseInt10 n))\<rparr> else sel3
                  | None \<Rightarrow> sel3);
          sel5 = (if hasAttribute w ''disabled'' then sel4\<lparr>sel_disabled := True\<rparr> else sel4)
      in sel5)"

text \<open>
  \<^verbatim>\<open>render\<close>: a new select element and a new, hidden error container; the transfer
  of the light-DOM options is queued as a microtask.
\<close>

definition SecureSelect_render :: "WidgetInstance \<Rightarrow> SecureSelect \<Rightarrow> SecureSelect" where
  "SecureSelect_render w x =
     x\<lparr>isMultiple := hasAttribute w ''multiple'',
       selectElement := Some (applySelectAttributes w createSelect),
       errorContainer := Some \<lparr>ec_textContent = [], ec_hidden = True\<rparr>,
       microtasks := microtasks x + 1\<rparr>"

subsection \<open>Transfer of the light-DOM options\<close>

text \<open>The body of the \<^verbatim>\<open>forEach\<close> in \<^verbatim>\<open>#transferOptions\<close>, for one light-DOM option.\<close>

definition transferOption ::
  "LightOption \<Rightarrow> SecureSelect \<times> string list \<Rightarrow> (SecureSelect \<times> string list) \<times> JSError option" where
  "transferOption option s =
     (case s of (x, selectedValues) \<Rightarrow>
        let v = (case lo_value option of Some a \<Rightarrow> a | None \<Rightarrow> []);
            newValue = sanitizeValue (JStr v);
            x1 = x\<lparr>validOptions := insert newValue (validOptions x)\<rparr>;
            newOption = \<lparr>opt_value = newValue,
                         opt_text = sanitizeValue (JStr (lo_textContent option)),
                         opt_selected = lo_selected option,
                         opt_disabled = lo_disabled option\<rparr>;
            selectedValues1 = (if lo_selected option then selectedValues @ [newValue]
                               else selectedValues)
        in (case selectElement x1 of
              None \<Rightarrow> ((x1, selectedValues1), Some TypeError)
            | Some sel \<Rightarrow>
                ((x1\<lparr>selectElement := Some (appendChild newOption sel)\<rparr>, selectedValues1), None)))"

text \<open>\<^verbatim>\<open>#transferOptions\<close>.\<close>

definition transferOptions :: "WidgetInstance \<Rightarrow> SecureSelect \<Rightarrow> SecureSelect \<times> JSError option" where
  "transferOptions w x =
     (if optionsTransferred x then (x, None)
      else
        let x1 = x\<lparr>optionsTransferred := True\<rparr>;
            options = lightOptions x1
        in if options = [] then (x1, None)
           else
             (case forEach transferOption options (x1, []) of
                ((x2, selectedValues), Some e) \<Rightarrow> (x2, Some e)
              | ((x2, selectedValues), None) \<Rightarrow>
                  if \<not> isMultiple x2 then
                    (case attributes w ''value'' of
                       Some initialValue \<Rightarrow>
                         if initialValue \<noteq> [] then withSelect (setSelectValue initialValue) x2
                         else if selectedValues \<noteq> []
                         then withSelect (setSelectValue (hd selectedValues)) x2
                         else (x2, None)
                     | None \<Rightarrow>
                         if selectedValues \<noteq> []
                         then withSelect (setSelectValue (hd selectedValues)) x2
                         else (x2, None))
                  else (x2, None)))"

text \<open>
  The microtask checkpoint: every queued transfer runs; an exception in one of them
  is reported and does not stop the next.
\<close>

definition runMicrotasks :: "WidgetInstance \<Rightarrow> SecureSelect \<Rightarrow> SecureSelect" where
  "runMicrotasks w x = ((\<lambda>y. fst (transferOptions w y)) ^^ microtasks x) (x\<lparr>microtasks := 0\<rparr>)"

subsection \<open>Errors shown to the user\<close>

text \<open>
  \<^verbatim>\<open>#showError\<close> and \<^verbatim>\<open>#clearErrors\<close>. The text of a hidden container is emptied
  later, when its transition ends; that deferred step is not part of the model.
\<close>

definition showError :: "string \<Rightarrow> SecureSelect \<Rightarrow> SecureSelect \<times> JSError option" where
  "showError message x =
     (case errorContainer x of
        None \<Rightarrow> (x, Some TypeError)
      | Some ec \<Rightarrow>
          withSelect (\<lambda>sel. sel\<lparr>sel_errorClass := True\<rparr>)
            (x\<lparr>errorContainer := Some (ec\<lparr>ec_textContent := message, ec_hidden := False\<rparr>)\<rparr>))"

definition clearErrors :: "SecureSelect \<Rightarrow> SecureSelect \<times> JSError option" where
  "clearErrors x =
     (case errorContainer x of
        None \<Rightarrow> (x, Some TypeError)
      | Some ec \<Rightarrow>
          withSelect (\<lambda>sel. sel\<lparr>sel_errorClass := False\<rparr>)
            (x\<lparr>errorContainer := Some (ec\<lparr>ec_hidden := True\<rparr>)\<rparr>))"

subsection \<open>Change events\<close>

text \<open>
  \<^verbatim>\<open>dispatchEvent(new CustomEvent(ev, {detail: {...}}))\<close>: the detail is a new object.
\<close>

definition dispatchEvent :: "string \<Rightarrow> jsobj \<Rightarrow> Env \<Rightarrow> Env" where
  "dispatchEvent ev detail env =
     (case newObject detail env of
        (env1, d) \<Rightarrow> env1\<lparr>dispatched := dispatched env1 @ [(ev, d)]\<rparr>)"

text \<open>
  \<^verbatim>\<open>#handleChange\<close>, the listener of the element's \<^verbatim>\<open>change\<close> event. \<open>now\<close> is the
  clock reading that \<^verbatim>\<open>audit\<close> stamps the entry with.
\<close>

definition handleChange ::
  "int \<Rightarrow> WidgetInstance \<Rightarrow> Env \<times> SecureSelect \<Rightarrow> (Env \<times> SecureSelect) \<times> JSError option" where
  "handleChange now w s =
     (case s of (env, x) \<Rightarrow>
        (case selectElement x of
           None \<Rightarrow> ((env, x), Some TypeError)
         | Some sel \<Rightarrow>
             if isMultiple x then
               let selectedValues = map opt_value (filter opt_selected (sel_options sel));
                   invalidValues = filter (\<lambda>v. v \<noteq> [] \<and> v \<notin> validOptions x) selectedValues
               in if invalidValues \<noteq> [] then
                    (case showError ''Invalid option selected'' x of
                       (x1, Some e) \<Rightarrow> ((env, x1), Some e)
                     | (x1, None) \<Rightarrow>
                         ((audit ''invalid_option_detected''
                             [(''name'', JStr (sel_name sel)),
                              (''attemptedValues'', JArr (map JStr invalidValues))] now w env,
                           x1), None))
                  else
                    (case clearErrors x of
                       (x1, Some e) \<Rightarrow> ((env, x1), Some e)
                     | (x1, None) \<Rightarrow>
                         ((dispatchEvent ''secure-select''
                             [(''name'', JStr (sel_name sel)),
                              (''value'', JArr (map JStr selectedValues)),
                              (''tier'', JStr (tierString (securityTier w)))]
                             (audit ''select_changed''
                                [(''name'', JStr (sel_name sel)),
                                 (''values'', JArr (map JStr selectedValues))] now w env),
                           x1), None))
             else
               let selectedValue = selectValue sel
               in if selectedValue \<noteq> [] \<and> selectedValue \<notin> validOptions x then
                    (case showError ''Invalid option selected'' x of
                       (x1, Some e) \<Rightarrow> ((env, x1), Some e)
                     | (x1, None) \<Rightarrow>
                         (case withSelect (setSelectValue []) x1 of
                            (x2, r) \<Rightarrow>
                              ((audit ''invalid_option_detected''
                                  [(''name'', JStr (sel_name sel)),
                                   (''attemptedValue'', JStr selectedValue)] now w env,
                                x2), r)))
                  else
                    (case clearErrors x of
                       (x1, Some e) \<Rightarrow> ((env, x1), Some e)
                     | (x1, None) \<Rightarrow>
                         ((dispatchEvent ''secure-select''
                             [(''name'', JStr (sel_name sel)),
                              (''value'', JStr selectedValue),
                              (''tier'', JStr (tierString (securityTier w)))]
                             (audit ''select_changed''
                                [(''name'', JStr (sel_name sel)),
                                 (''value'', JStr selectedValue)] now w env),
                           x1), None))))"

subsection \<open>Attribute changes and the public interface\<close>

text \<open>\<^verbatim>\<open>handleAttributeChange\<close> of the select.\<close>

definition SecureSelect_handleAttributeChange ::
  "string \<Rightarrow> string option \<Rightarrow> string option \<Rightarrow> WidgetInstance \<Rightarrow> SecureSelect \<Rightarrow> SecureSelect" where
  "SecureSelect_handleAttributeChange attr oldValue newValue w x =
     (case selectElement x of
        None \<Rightarrow> x
      | Some sel \<Rightarrow>
          if attr = ''disabled''
          then x\<lparr>selectElement := Some (sel\<lparr>sel_disabled := hasAttribute w ''disabled''\<rparr>)\<rparr>
          else if attr = ''value'' then
            (if newValue \<noteq> Some (selectValue sel)
             then x\<lparr>selectElement :=
                     Some (setSelectValue (case newValue of Some v \<Rightarrow> v | None \<Rightarrow> []) sel)\<rparr>
             else x)
          else x)"

definition SecureSelect_methods :: "SecureSelect Widget" where
  "SecureSelect_methods =
     \<lparr>render = SecureSelect_render, handleAttributeChange = SecureSelect_handleAttributeChange\<rparr>"

text \<open>The getter \<^verbatim>\<open>value\<close>.\<close>

definition get_value :: "SecureSelect \<Rightarrow> string" where
  "get_value x =
     (case selectElement x of
        None \<Rightarrow> []
      | Some sel \<Rightarrow>
          if isMultiple x
          then joinWith '', ''
                 (filter (\<lambda>v. v \<noteq> []) (map opt_value (filter opt_selected (sel_options sel))))
          else selectValue sel)"

text \<open>The setter \<^verbatim>\<open>value\<close>.\<close>

definition set_value :: "string \<Rightarrow> SecureSelect \<Rightarrow> SecureSelect" where
  "set_value v x =
     (case selectElement x of
        None \<Rightarrow> x
      | Some sel \<Rightarrow>
          if isMultiple x then
            let vals = filter (\<lambda>a. a \<noteq> []) (map trim (splitOn CHR '','' v));
                sel1 = deselectEach sel;
                sel2 = fold (\<lambda>a s. if a \<in> validOptions x
                                    then selectOption (\<lambda>opt. opt_value opt = a) s else s)
                            vals sel1
            in x\<lparr>selectElement := Some sel2\<rparr>
          else if v \<in> validOptions x then x\<lparr>selectElement := Some (setSelectValue v sel)\<rparr>
          else x)"

text \<open>The getter \<^verbatim>\<open>valid\<close>; it reads \<^verbatim>\<open>this.#selectElement!\<close>.\<close>

definition get_valid :: "WidgetInstance \<Rightarrow> SecureSelect \<Rightarrow> JSError + bool" where
  "get_valid w x =
     (case selectElement x of
        None \<Rightarrow> Inl TypeError
      | Some sel \<Rightarrow>
          let req = (hasAttribute w ''required'' \<or> required (validation (config w)))
          in if isMultiple x then
               let selectedValues =
                     filter (\<lambda>v. v \<noteq> []) (map opt_value (filter opt_selected (sel_options sel)))
               in if req \<and> selectedValues = [] then Inr False
                  else Inr (list_all (\<lambda>v. v \<in> validOptions x) selectedValues)
             else if req \<and> selectValue sel = [] then Inr False
             else if selectValue sel \<noteq> [] \<and> selectValue sel \<notin> validOptions x then Inr False
             else Inr True)"

text \<open>\<^verbatim>\<open>addOption\<close>, \<^verbatim>\<open>removeOption\<close> and \<^verbatim>\<open>clearOptions\<close>.\<close>

definition addOption :: "string \<Rightarrow> string \<Rightarrow> bool \<Rightarrow> SecureSelect \<Rightarrow> SecureSelect" where
  "addOption v txt selected x =
     (case selectElement x of
        None \<Rightarrow> x
      | Some sel \<Rightarrow>
          let option = \<lparr>opt_value = sanitizeValue (JStr v), opt_text = sanitizeValue (JStr txt),
                        opt_selected = selected, opt_disabled = False\<rparr>
          in x\<lparr>validOptions := insert (opt_value option) (validOptions x),
               selectElement := Some (appendChild option sel)\<rparr>)"

definition removeOption :: "string \<Rightarrow> SecureSelect \<Rightarrow> SecureSelect" where
  "removeOption v x =
     (case selectElement x of
        None \<Rightarrow> x
      | Some sel \<Rightarrow>
          if list_ex (\<lambda>opt. opt_value opt = v) (sel_options sel)
          then x\<lparr>selectElement := Some (removeChild (\<lambda>opt. opt_value opt = v) sel),
                 validOptions := validOptions x - {v}\<rparr>
          else x)"

definition clearOptions :: "SecureSelect \<Rightarrow> SecureSelect" where
  "clearOptions x =
     (case selectElement x of
        None \<Rightarrow> x
      | Some sel \<Rightarrow> x\<lparr>selectElement := Some (sel\<lparr>sel_options := []\<rparr>), validOptions := {}\<rparr>)"

text \<open>
  \<^verbatim>\<open>disconnectedCallback\<close> of the select: the base teardown and nothing else.
\<close>

definition SecureSelect_disconnectedCallback ::
  "int \<Rightarrow> WidgetInstance \<times> SecureSelect \<Rightarrow> WidgetInstance \<times> SecureSelect" where
  "SecureSelect_disconnectedCallback now s = (case s of (w, x) \<Rightarrow> (disconnectedCallback now w, x))"

text \<open>A new element: nothing rendered, no option registered, nothing queued.\<close>

definition newSecureSelect :: "LightOption list \<Rightarrow> SecureSelect" where
  "newSecureSelect children =
     \<lparr>selectElement = None, errorContainer = None, validOptions = {},
      optionsTransferred = False, isMultiple = False, lightOptions = children, microtasks = 0\<rparr>"

section \<open>Concrete instances\<close>

text \<open>
  A tier table to run the model on. The tests report that PUBLIC is not rate limited,
  that SENSITIVE allows 10 and CRITICAL 5 attempts per 60000 ms, that AUTHENTICATED
  and SENSITIVE require a value and that CRITICAL allows 256 characters; the numbers
  the tests leave open are filled in.
\<close>

definition testQuota :: "SecurityTier \<Rightarrow> RateLimitConfig" where
  "testQuota t =
     \<lparr>enabled = (t \<noteq> PUBLIC), maxAttempts = (if t = CRITICAL then 5 else 10), windowMs = 60000\<rparr>"

definition testChecks :: "SecurityTier \<Rightarrow> ValidationConfig" where
  "testChecks t =
     \<lparr>required = (t \<noteq> PUBLIC), strict = (t = SENSITIVE \<or> t = CRITICAL),
      maxLength = (if t = CRITICAL then 256 else 1000)\<rparr>"

text \<open>
  An element that has been created and not yet connected, with the given attributes
  and with its audit log at the given address.
\<close>

definition createdInstance :: "(string \<times> string) list \<Rightarrow> addr \<Rightarrow> WidgetInstance" where
  "createdInstance attrs a =
     \<lparr>attributes = map_of attrs, securityTier = CRITICAL,
      config = getTierConfig testQuota testChecks JNull, initialized = False,
      rateLimitState = \<lparr>count = 0, windowStart = 0\<rparr>, auditLog = a\<rparr>"

text \<open>The test component, connected with the given attributes.\<close>

definition connectedTest :: "(string \<times> string) list \<Rightarrow> WidgetInstance \<times> TestComponent" where
  "connectedTest attrs =
     connectedCallback testQuota testChecks TestComponent_methods
       (createdInstance attrs 0, \<lparr>renderCallCount = 0, lastAttributeChange = None\<rparr>)"

text \<open>The environment in which one element with an empty audit log exists.\<close>

definition startEnv :: Env where
  "startEnv = \<lparr>objects = [], arrays = [[]], console = [], dispatched = []\<rparr>"

text \<open>
  A secure-select with the given attributes and light-DOM options, connected; and the
  options of the test \<^verbatim>\<open>should respect selected attribute on options\<close>.
\<close>

definition connectedSelect ::
  "(string \<times> string) list \<Rightarrow> LightOption list \<Rightarrow> WidgetInstance \<times> SecureSelect" where
  "connectedSelect attrs children =
     connectedCallback testQuota testChecks SecureSelect_methods
       (createdInstance attrs 0, newSecureSelect children)"

definition countryOptions :: "LightOption list" where
  "countryOptions =
     [\<lparr>lo_value = Some [], lo_textContent = ''Select one'', lo_selected = False, lo_disabled = False\<rparr>,
      \<lparr>lo_value = Some ''us'', lo_textContent = ''United States'', lo_selected = False, lo_disabled = False\<rparr>,
      \<lparr>lo_value = Some ''uk'', lo_textContent = ''United Kingdom'', lo_selected = True, lo_disabled = False\<rparr>,
      \<lparr>lo_value = Some ''ca'', lo_textContent = ''Canada'', lo_selected = False, lo_disabled = False\<rparr>]"

text \<open>
  The country select after its options were transferred, and the same select after
  an option that was never registered has been put into the internal element and
  selected, as a script with access to the element could do.
\<close>

definition countrySelect :: SecureSelect where
  "countrySelect =
     runMicrotasks (fst (connectedSelect [] countryOptions)) (snd (connectedSelect [] countryOptions))"

definition injectedSelect :: SecureSelect where
  "injectedSelect =
     countrySelect\<lparr>selectElement :=
       map_option
         (appendChild \<lparr>opt_value = ''injected'', opt_text = ''Injected'', opt_selected = True,
                       opt_disabled = False\<rparr>)
         (selectElement countrySelect)\<rparr>"

text \<open>Two options, neither of them marked as selected.\<close>

definition plainOptions :: "LightOption list" where
  "plainOptions =
     [\<lparr>lo_value = Some ''a'', lo_textContent = ''A'', lo_selected = False, lo_disabled = False\<rparr>,
      \<lparr>lo_value = Some ''b'', lo_textContent = ''B'', lo_selected = False, lo_disabled = False\<rparr>]"

text \<open>
  A select with two options of the same value, the second one selected, after
  \<^verbatim>\<open>removeOption\<close> of that value.
\<close>

definition twinSelect :: SecureSelect where
  "twinSelect =
     removeOption ''x''
       (addOption ''x'' ''Second'' True
          (addOption ''x'' ''First'' True
             (runMicrotasks (fst (connectedSelect [] [])) (snd (connectedSelect [] [])))))"

section \<open>The concrete instances\<close>

lemma connectedTest_critical:
  "fst (connectedTest []) =
     \<lparr>attributes = map_of [], securityTier = CRITICAL,
      config = \<lparr>name = ''Critical'', level = 4,
                rateLimit = \<lparr>enabled = True, maxAttempts = 5, windowMs = 60000\<rparr>,
                validation = \<lparr>required = True, strict = True, maxLength = 256\<rparr>\<rparr>,
      initialized = True, rateLimitState = \<lparr>count = 0, windowStart = 0\<rparr>, auditLog = 0\<rparr>"
  by (simp add: connectedTest_def connectedCallback_def createdInstance_def getAttribute_def
      getTierConfig_def resolveTier_def TIER_CONFIG_def testQuota_def testChecks_def Let_def)

lemma connectedTest_public:
  "rateLimit (config (fst (connectedTest [(''security-tier'', ''public'')])))
     = \<lparr>enabled = False, maxAttempts = 10, windowMs = 60000\<rparr>"
  by (simp add: connectedTest_def connectedCallback_def createdInstance_def getAttribute_def
      getTierConfig_def resolveTier_def TIER_CONFIG_def testQuota_def testChecks_def Let_def)

lemma connectedTest_authenticated:
  "config (fst (connectedTest [(''security-tier'', ''authenticated'')])) =
     \<lparr>name = ''Authenticated'', level = 2,
      rateLimit = \<lparr>enabled = True, maxAttempts = 10, windowMs = 60000\<rparr>,
      validation = \<lparr>required = True, strict = False, maxLength = 1000\<rparr>\<rparr>"
  by (simp add: connectedTest_def connectedCallback_def createdInstance_def getAttribute_def
      getTierConfig_def resolveTier_def TIER_CONFIG_def testQuota_def testChecks_def Let_def)

lemma connectedTest_unfold:
  "connectedTest attrs =
     ((createdInstance attrs 0)
        \<lparr>securityTier := resolveTier (getAttribute (createdInstance attrs 0) ''security-tier''),
         config := getTierConfig testQuota testChecks
                     (getAttribute (createdInstance attrs 0) ''security-tier''),
         initialized := True\<rparr>,
      \<lparr>renderCallCount = 1, lastAttributeChange = None\<rparr>)"
  by (simp add: connectedTest_def connectedCallback_def createdInstance_def Let_def
      TestComponent_methods_def)

section \<open>Properties of the policy resolver\<close>

lemma resolveTier_tierString: "resolveTier (JStr (tierString t)) = t"
  by (cases t) (simp_all add: resolveTier_def)

lemma isValidTier_resolveTier: "isValidTier v \<longleftrightarrow> v = JStr (tierString (resolveTier v))"
  by (cases v) (auto simp: isValidTier_def resolveTier_def)

lemma level_TIER_CONFIG: "level (TIER_CONFIG quota checks t) = tierLevel t"
  by (simp add: TIER_CONFIG_def)

text \<open>
  Claim C1. Every value that is not exactly one of the strings public, authenticated,
  sensitive, critical (the empty string, null, undefined, a number, any other string)
  resolves to the CRITICAL policy, whose level is 4, and never to the PUBLIC policy;
  each of the four tier strings resolves to the policy of its tier. The resolver is a
  total function into policies: it has no error result.
\<close>

theorem getTierConfig_fail_secure:
  "(v \<notin> {JStr ''public'', JStr ''authenticated'', JStr ''sensitive'', JStr ''critical''} \<longrightarrow>
      getTierConfig quota checks v = TIER_CONFIG quota checks CRITICAL \<and>
      level (getTierConfig quota checks v) = 4 \<and>
      name (getTierConfig quota checks v) = ''Critical'' \<and>
      getTierConfig quota checks v \<noteq> TIER_CONFIG quota checks PUBLIC) \<and>
   getTierConfig quota checks (JStr (tierString t)) = TIER_CONFIG quota checks t \<and>
   level (getTierConfig quota checks (JStr (tierString t))) = tierLevel t"
proof -
  have known: "getTierConfig quota checks (JStr (tierString t)) = TIER_CONFIG quota checks t"
    by (simp add: getTierConfig_def resolveTier_tierString)
  have other: "getTierConfig quota checks v = TIER_CONFIG quota checks CRITICAL"
    if "v \<notin> {JStr ''public'', JStr ''authenticated'', JStr ''sensitive'', JStr ''critical''}"
    using that by (simp add: getTierConfig_def resolveTier_def)
  have apart: "TIER_CONFIG quota checks CRITICAL \<noteq> TIER_CONFIG quota checks PUBLIC"
  proof
    assume "TIER_CONFIG quota checks CRITICAL = TIER_CONFIG quota checks PUBLIC"
    then have "level (TIER_CONFIG quota checks CRITICAL) = level (TIER_CONFIG quota checks PUBLIC)"
      by simp
    then show False by (simp add: level_TIER_CONFIG)
  qed
  have crit: "level (TIER_CONFIG quota checks CRITICAL) = 4
      \<and> name (TIER_CONFIG quota checks CRITICAL) = ''Critical''"
    by (simp add: TIER_CONFIG_def)
  show ?thesis
    using known other apart crit by (simp add: level_TIER_CONFIG)
qed

theorem getTierConfig_fail_secure_witness:
  "JNull \<notin> {JStr ''public'', JStr ''authenticated'', JStr ''sensitive'', JStr ''critical''} \<and>
   level (getTierConfig (\<lambda>_. \<lparr>enabled = True, maxAttempts = 5, windowMs = 60000\<rparr>)
            (\<lambda>_. \<lparr>required = True, strict = True, maxLength = 256\<rparr>) JNull) = 4 \<and>
   getTierConfig (\<lambda>_. \<lparr>enabled = True, maxAttempts = 5, windowMs = 60000\<rparr>)
            (\<lambda>_. \<lparr>required = True, strict = True, maxLength = 256\<rparr>) JNull
     \<noteq> TIER_CONFIG (\<lambda>_. \<lparr>enabled = True, maxAttempts = 5, windowMs = 60000\<rparr>)
            (\<lambda>_. \<lparr>required = True, strict = True, maxLength = 256\<rparr>) PUBLIC"
proof -
  have other: "JNull \<notin> {JStr ''public'', JStr ''authenticated'', JStr ''sensitive'', JStr ''critical''}"
    by simp
  with getTierConfig_fail_secure
    [of JNull "\<lambda>_. \<lparr>enabled = True, maxAttempts = 5, windowMs = 60000\<rparr>"
        "\<lambda>_. \<lparr>required = True, strict = True, maxLength = 256\<rparr>" CRITICAL]
  show ?thesis by blast
qed

section \<open>Properties of the lifecycle\<close>


lemma connectedCallback_initialized:
  "initialized (fst (connectedCallback quota checks m s))"
  by (cases s) (simp add: connectedCallback_def Let_def)

lemma connectedCallback_first:
  assumes "\<not> initialized w"
  shows "connectedCallback quota checks m (w, x) =
           (w\<lparr>securityTier := resolveTier (getAttribute w ''security-tier''),
              config := getTierConfig quota checks (getAttribute w ''security-tier''),
              initialized := True\<rparr>,
            render m (w\<lparr>securityTier := resolveTier (getAttribute w ''security-tier''),
                        config := getTierConfig quota checks (getAttribute w ''security-tier'')\<rparr>) x)"
  using assms by (simp add: connectedCallback_def Let_def)

lemma connectedCallback_again:
  "initialized w \<Longrightarrow> connectedCallback quota checks m (w, x) = (w, x)"
  by (simp add: connectedCallback_def)

lemma writeAttribute_notifies:
  assumes "v \<noteq> None \<or> attributes w attr \<noteq> None"
  shows "writeAttribute notify attr v (env, w, x)
           = notify (attributes w attr) v (env, w\<lparr>attributes := (attributes w)(attr := v)\<rparr>, x)"
  using assms by (auto simp add: writeAttribute_def)

text \<open>
  A write to an attribute other than the tier returns as soon as the callback may be
  entered once: the attribute is written and the subclass is told.
\<close>

lemma setAttribute_other:
  assumes "attr \<noteq> ''security-tier''"
  shows "setAttribute (Suc depth) m attr v (env, w, x)
           = Some (env, w\<lparr>attributes := (attributes w)(attr \<mapsto> v)\<rparr>,
                   handleAttributeChange m attr (attributes w attr) (Some v)
                     (w\<lparr>attributes := (attributes w)(attr \<mapsto> v)\<rparr>) x)"
  using assms by (simp add: setAttribute_def writeAttribute_notifies)

text \<open>Before the first connection the tier attribute is written like any other.\<close>

lemma setAttribute_tier_before_connection:
  assumes "\<not> initialized w"
  shows "setAttribute (Suc depth) m ''security-tier'' v (env, w, x)
           = Some (env, w\<lparr>attributes := (attributes w)(''security-tier'' \<mapsto> v)\<rparr>, x)"
  using assms by (simp add: setAttribute_def writeAttribute_notifies)

text \<open>
  On an initialised instance a notification for the tier attribute does not return,
  whatever depth of nested calls is allowed: the restoring write notifies the callback
  with the two values exchanged, and that notification is in the same position.
\<close>

lemma tier_notification_never_returns:
  assumes "initialized w" and "attributes w ''security-tier'' = newValue"
    and "oldValue \<noteq> None \<or> newValue \<noteq> None"
  shows "attributeChangedCallback depth m ''security-tier'' oldValue newValue (env, w, x) = None"
  using assms
proof (induction depth arbitrary: oldValue newValue env w)
  case 0
  show ?case by simp
next
  case (Suc depth)
  let ?env = "env\<lparr>console := console env @ [tierWarning]\<rparr>"
  let ?w = "w\<lparr>attributes := (attributes w)(''security-tier'' := oldValue)\<rparr>"
  from Suc.prems have present: "oldValue \<noteq> None \<or> attributes w ''security-tier'' \<noteq> None"
    by simp
  have "attributeChangedCallback (Suc depth) m ''security-tier'' oldValue newValue (env, w, x)
      = writeAttribute (attributeChangedCallback depth m ''security-tier'') ''security-tier''
          oldValue (?env, w, x)"
    using Suc.prems(1) by simp
  also have "\<dots> = attributeChangedCallback depth m ''security-tier''
      (attributes w ''security-tier'') oldValue (?env, ?w, x)"
    by (rule writeAttribute_notifies [OF present])
  also have "\<dots> = None"
  proof (rule Suc.IH)
    show "initialized ?w" using Suc.prems(1) by simp
    show "attributes ?w ''security-tier'' = oldValue" by simp
    show "attributes w ''security-tier'' \<noteq> None \<or> oldValue \<noteq> None" using present by blast
  qed
  finally show ?case .
qed

text \<open>
  Claim C2. On an initialised instance, and every connected instance is initialised,
  a call of \<^verbatim>\<open>setAttribute\<close> for the \<^verbatim>\<open>security-tier\<close> attribute does not return,
  whatever value is written and whatever depth of nested calls is allowed. The
  callback warns and writes the old value back through \<^verbatim>\<open>setAttribute\<close>; that write
  notifies the callback again, which warns and writes back again, without end. So the
  state the claim describes, with the tier as before, the attribute restored, one
  warning on the console and no exception, is not reached.
\<close>

theorem tier_revert_never_returns:
  assumes "initialized w"
  shows "setAttribute depth m ''security-tier'' u (env, w, x) = None"
proof -
  have "setAttribute depth m ''security-tier'' u (env, w, x)
      = attributeChangedCallback depth m ''security-tier'' (attributes w ''security-tier'') (Some u)
          (env, w\<lparr>attributes := (attributes w)(''security-tier'' \<mapsto> u)\<rparr>, x)"
    by (simp add: setAttribute_def writeAttribute_notifies)
  also have "\<dots> = None"
    by (rule tier_notification_never_returns) (simp_all add: assms)
  finally show ?thesis .
qed

theorem tier_revert_never_returns_witness:
  "initialized (fst (connectedTest [(''security-tier'', ''public'')])) \<and>
   securityTier (fst (connectedTest [(''security-tier'', ''public'')])) = PUBLIC \<and>
   setAttribute 1000 TestComponent_methods ''security-tier'' ''critical''
     (startEnv, fst (connectedTest [(''security-tier'', ''public'')]),
      snd (connectedTest [(''security-tier'', ''public'')])) = None"
proof -
  let ?w = "fst (connectedTest [(''security-tier'', ''public'')])"
  let ?x = "snd (connectedTest [(''security-tier'', ''public'')])"
  have init: "initialized ?w" by (simp add: connectedTest_unfold)
  have tier: "securityTier ?w = PUBLIC"
    by (simp add: connectedTest_unfold createdInstance_def getAttribute_def resolveTier_def)
  note t = tier_revert_never_returns
    [where w = ?w and m = TestComponent_methods and u = "''critical''" and env = startEnv
       and x = ?x and depth = 1000, OF init]
  from init tier t show ?thesis by (intro conjI)
qed

lemma checkRateLimit_frame:
  "fst (checkRateLimit t w) = w\<lparr>rateLimitState := rateLimitState (fst (checkRateLimit t w))\<rparr>"
  by (simp add: checkRateLimit_def Let_def)

lemma checkRateLimits_frame:
  "fst (checkRateLimits ts w) = w\<lparr>rateLimitState := rateLimitState (fst (checkRateLimits ts w))\<rparr>"
proof (induction ts arbitrary: w)
  case Nil
  show ?case by simp
next
  case (Cons t ts)
  let ?w1 = "fst (checkRateLimit t w)"
  have "fst (checkRateLimits (t # ts) w) = fst (checkRateLimits ts ?w1)"
    by (simp split: prod.splits)
  also have "\<dots> = ?w1\<lparr>rateLimitState := rateLimitState (fst (checkRateLimits ts ?w1))\<rparr>"
    by (rule Cons.IH)
  also have "\<dots> = w\<lparr>rateLimitState := rateLimitState (fst (checkRateLimits ts ?w1))\<rparr>"
    by (subst checkRateLimit_frame) simp
  finally show ?case by (simp split: prod.splits)
qed

lemma reconnect_cycle:
  assumes fresh: "\<not> initialized w"
  shows "connectedCallback quota checks m
      (disconnectedCallback now (fst (checkRateLimits ts (fst (connectedCallback quota checks m (w, x))))),
       snd (connectedCallback quota checks m (w, x)))
     = (w\<lparr>securityTier := resolveTier (getAttribute w ''security-tier''),
          config := getTierConfig quota checks (getAttribute w ''security-tier''),
          initialized := True, rateLimitState := \<lparr>count = 0, windowStart = now\<rparr>\<rparr>,
        render m (w\<lparr>securityTier := resolveTier (getAttribute w ''security-tier''),
                    config := getTierConfig quota checks (getAttribute w ''security-tier'')\<rparr>) x)"
proof -
  let ?w1 = "w\<lparr>securityTier := resolveTier (getAttribute w ''security-tier''),
               config := getTierConfig quota checks (getAttribute w ''security-tier''),
               initialized := True\<rparr>"
  have used: "fst (checkRateLimits ts ?w1)
      = ?w1\<lparr>rateLimitState := rateLimitState (fst (checkRateLimits ts ?w1))\<rparr>"
    by (rule checkRateLimits_frame)
  show ?thesis
    by (simp add: connectedCallback_first [OF fresh], subst used)
       (simp add: disconnectedCallback_def connectedCallback_def)
qed

text \<open>
  Claim C7. An instance that is connected for the first time, used for any number of
  rate-limit checks, disconnected and connected again has rendered exactly once: the
  second connection leaves the subclass state as the first render made it. After the
  reconnection the instance is initialised and the count of its rate limiter is 0.
  For the test component, which counts its renders, the count has grown by one.
\<close>

theorem render_once_over_reconnect:
  assumes fresh: "\<not> initialized w"
  shows
  "snd (connectedCallback quota checks m (w, x))
     = render m (w\<lparr>securityTier := resolveTier (getAttribute w ''security-tier''),
                   config := getTierConfig quota checks (getAttribute w ''security-tier'')\<rparr>) x \<and>
   snd (connectedCallback quota checks m
      (disconnectedCallback now (fst (checkRateLimits ts (fst (connectedCallback quota checks m (w, x))))),
       snd (connectedCallback quota checks m (w, x))))
     = snd (connectedCallback quota checks m (w, x)) \<and>
   initialized (fst (connectedCallback quota checks m
      (disconnectedCallback now (fst (checkRateLimits ts (fst (connectedCallback quota checks m (w, x))))),
       snd (connectedCallback quota checks m (w, x))))) \<and>
   count (rateLimitState (fst (connectedCallback quota checks m
      (disconnectedCallback now (fst (checkRateLimits ts (fst (connectedCallback quota checks m (w, x))))),
       snd (connectedCallback quota checks m (w, x)))))) = 0 \<and>
   renderCallCount (snd (connectedCallback quota checks TestComponent_methods
      (disconnectedCallback now
         (fst (checkRateLimits ts (fst (connectedCallback quota checks TestComponent_methods (w, tx))))),
       snd (connectedCallback quota checks TestComponent_methods (w, tx)))))
     = renderCallCount tx + 1"
proof -
  note first = connectedCallback_first [OF fresh]
  have a: "snd (connectedCallback quota checks m (w, x))
     = render m (w\<lparr>securityTier := resolveTier (getAttribute w ''security-tier''),
                   config := getTierConfig quota checks (getAttribute w ''security-tier'')\<rparr>) x"
    by (simp add: first)
  have b: "snd (connectedCallback quota checks m
      (disconnectedCallback now (fst (checkRateLimits ts (fst (connectedCallback quota checks m (w, x))))),
       snd (connectedCallback quota checks m (w, x))))
     = snd (connectedCallback quota checks m (w, x))"
    by (subst reconnect_cycle [OF fresh]) (simp add: first)
  have c: "initialized (fst (connectedCallback quota checks m
      (disconnectedCallback now (fst (checkRateLimits ts (fst (connectedCallback quota checks m (w, x))))),
       snd (connectedCallback quota checks m (w, x)))))"
    by (subst reconnect_cycle [OF fresh]) simp
  have d: "count (rateLimitState (fst (connectedCallback quota checks m
      (disconnectedCallback now (fst (checkRateLimits ts (fst (connectedCallback quota checks m (w, x))))),
       snd (connectedCallback quota checks m (w, x)))))) = 0"
    by (subst reconnect_cycle [OF fresh]) simp
  have e: "renderCallCount (snd (connectedCallback quota checks TestComponent_methods
      (disconnectedCallback now
         (fst (checkRateLimits ts (fst (connectedCallback quota checks TestComponent_methods (w, tx))))),
       snd (connectedCallback quota checks TestComponent_methods (w, tx)))))
     = renderCallCount tx + 1"
    by (subst reconnect_cycle [OF fresh]) (simp add: TestComponent_methods_def)
  from a b c d e show ?thesis by (intro conjI)
qed

theorem render_once_over_reconnect_witness:
  "\<not> initialized (createdInstance [] 0) \<and>
   renderCallCount (snd (connectedCallback testQuota testChecks TestComponent_methods
      (disconnectedCallback 5000
         (fst (checkRateLimits [0, 1, 2, 3, 4, 5, 6]
            (fst (connectedCallback testQuota testChecks TestComponent_methods
               (createdInstance [] 0, \<lparr>renderCallCount = 0, lastAttributeChange = None\<rparr>))))),
       snd (connectedCallback testQuota testChecks TestComponent_methods
               (createdInstance [] 0, \<lparr>renderCallCount = 0, lastAttributeChange = None\<rparr>)))))
     = 1 \<and>
   count (rateLimitState (fst (connectedCallback testQuota testChecks TestComponent_methods
      (disconnectedCallback 5000
         (fst (checkRateLimits [0, 1, 2, 3, 4, 5, 6]
            (fst (connectedCallback testQuota testChecks TestComponent_methods
               (createdInstance [] 0, \<lparr>renderCallCount = 0, lastAttributeChange = None\<rparr>))))),
       snd (connectedCallback testQuota testChecks TestComponent_methods
               (createdInstance [] 0, \<lparr>renderCallCount = 0, lastAttributeChange = None\<rparr>)))))) = 0"
proof -
  have fresh: "\<not> initialized (createdInstance [] 0)" by (simp add: createdInstance_def)
  note t = render_once_over_reconnect
    [OF fresh, of testQuota testChecks TestComponent_methods
       "\<lparr>renderCallCount = 0, lastAttributeChange = None\<rparr>" 5000 "[0, 1, 2, 3, 4, 5, 6]"
       "\<lparr>renderCallCount = 0, lastAttributeChange = None\<rparr>"]
  note count0 = t [THEN conjunct2, THEN conjunct2, THEN conjunct2, THEN conjunct1]
  note calls = t [THEN conjunct2, THEN conjunct2, THEN conjunct2, THEN conjunct2]
  from calls have calls1: "renderCallCount (snd (connectedCallback testQuota testChecks TestComponent_methods
      (disconnectedCallback 5000
         (fst (checkRateLimits [0, 1, 2, 3, 4, 5, 6]
            (fst (connectedCallback testQuota testChecks TestComponent_methods
               (createdInstance [] 0, \<lparr>renderCallCount = 0, lastAttributeChange = None\<rparr>))))),
       snd (connectedCallback testQuota testChecks TestComponent_methods
               (createdInstance [] 0, \<lparr>renderCallCount = 0, lastAttributeChange = None\<rparr>)))))
     = 1"
    by (simp del: checkRateLimits.simps)
  show ?thesis
    by (intro conjI) (rule fresh, rule calls1, rule count0)
qed

lemma rerender_renders_again:
  "renderCallCount (snd (rerender TestComponent_methods (w, tx))) = renderCallCount tx + 1"
  by (simp add: rerender_def TestComponent_methods_def)

section \<open>Properties of the rate limiter\<close>


lemma checkRateLimit_config: "config (fst (checkRateLimit now w)) = config w"
  by (simp add: checkRateLimit_def Let_def)

lemma checkRateLimit_disabled:
  "\<not> enabled (rateLimit (config w)) \<Longrightarrow>
     snd (checkRateLimit now w) = \<lparr>allowed = True, retryAfter = 0\<rparr>"
  by (simp add: checkRateLimit_def Let_def)

lemma checkRateLimit_no_reset:
  assumes "now - windowStart (rateLimitState w) \<le> windowMs (rateLimit (config w))"
  shows "rateLimitState (fst (checkRateLimit now w))
           = \<lparr>count = count (rateLimitState w) + 1, windowStart = windowStart (rateLimitState w)\<rparr>"
  using assms by (simp add: checkRateLimit_def Let_def)

lemma checkRateLimit_enabled_result:
  assumes "enabled (rateLimit (config w))"
    and "now - windowStart (rateLimitState w) \<le> windowMs (rateLimit (config w))"
  shows "snd (checkRateLimit now w) =
           (if count (rateLimitState w) + 1 \<le> maxAttempts (rateLimit (config w))
            then \<lparr>allowed = True, retryAfter = 0\<rparr>
            else \<lparr>allowed = False,
                   retryAfter = windowMs (rateLimit (config w)) - (now - windowStart (rateLimitState w))\<rparr>)"
  using assms by (simp add: checkRateLimit_def Let_def)

lemma checkRateLimit_reset:
  assumes "now - windowStart (rateLimitState w) > windowMs (rateLimit (config w))"
  shows "rateLimitState (fst (checkRateLimit now w)) = \<lparr>count = 1, windowStart = now\<rparr>"
    and "checkRateLimit now w = checkRateLimit now (w\<lparr>rateLimitState := \<lparr>count = 0, windowStart = now\<rparr>\<rparr>)"
  using assms by (simp_all add: checkRateLimit_def Let_def)

lemma checkRateLimits_Cons:
  "snd (checkRateLimits (t # ts) w)
     = snd (checkRateLimit t w) # snd (checkRateLimits ts (fst (checkRateLimit t w)))"
  "fst (checkRateLimits (t # ts) w) = fst (checkRateLimits ts (fst (checkRateLimit t w)))"
  by (simp_all split: prod.splits)

lemma checkRateLimits_length: "length (snd (checkRateLimits ts w)) = length ts"
  by (induction ts arbitrary: w) (simp_all add: checkRateLimits_Cons del: checkRateLimits.simps(2))

lemma checkRateLimits_disabled:
  "\<not> enabled (rateLimit (config w)) \<Longrightarrow>
     snd (checkRateLimits ts w) = replicate (length ts) \<lparr>allowed = True, retryAfter = 0\<rparr>"
proof (induction ts arbitrary: w)
  case Nil
  show ?case by simp
next
  case (Cons t ts)
  have off: "\<not> enabled (rateLimit (config (fst (checkRateLimit t w))))"
    using Cons.prems by (simp add: checkRateLimit_config)
  show ?case
    using Cons.IH [OF off] checkRateLimit_disabled [OF Cons.prems, of t]
    by (simp add: checkRateLimits_Cons del: checkRateLimits.simps(2))
qed

lemma checkRateLimits_same_window:
  assumes "enabled (rateLimit (config w))"
    and "\<forall>t\<in>set ts. t - windowStart (rateLimitState w) \<le> windowMs (rateLimit (config w))"
    and "k < length ts"
  shows "snd (checkRateLimits ts w) ! k =
           (if count (rateLimitState w) + int k + 1 \<le> maxAttempts (rateLimit (config w))
            then \<lparr>allowed = True, retryAfter = 0\<rparr>
            else \<lparr>allowed = False,
                   retryAfter = windowMs (rateLimit (config w))
                                  - (ts ! k - windowStart (rateLimitState w))\<rparr>)"
  using assms
proof (induction ts arbitrary: w k)
  case Nil
  then show ?case by simp
next
  case (Cons t ts)
  define w1 where "w1 = fst (checkRateLimit t w)"
  have inwin: "t - windowStart (rateLimitState w) \<le> windowMs (rateLimit (config w))"
    using Cons.prems(2) by simp
  have cfg: "config w1 = config w" by (simp add: w1_def checkRateLimit_config)
  have st1: "rateLimitState w1
      = \<lparr>count = count (rateLimitState w) + 1, windowStart = windowStart (rateLimitState w)\<rparr>"
    using checkRateLimit_no_reset [OF inwin] by (simp add: w1_def)
  show ?case
  proof (cases k)
    case 0
    then show ?thesis
      using checkRateLimit_enabled_result [OF Cons.prems(1) inwin]
      by (simp add: checkRateLimits_Cons del: checkRateLimits.simps(2))
  next
    case (Suc j)
    have en1: "enabled (rateLimit (config w1))" using Cons.prems(1) cfg by simp
    have win1: "\<forall>u\<in>set ts. u - windowStart (rateLimitState w1) \<le> windowMs (rateLimit (config w1))"
      using Cons.prems(2) cfg st1 by simp
    have j: "j < length ts" using Cons.prems(3) Suc by simp
    have "snd (checkRateLimits ts w1) ! j =
           (if count (rateLimitState w1) + int j + 1 \<le> maxAttempts (rateLimit (config w1))
            then \<lparr>allowed = True, retryAfter = 0\<rparr>
            else \<lparr>allowed = False,
                   retryAfter = windowMs (rateLimit (config w1))
                                  - (ts ! j - windowStart (rateLimitState w1))\<rparr>)"
      by (rule Cons.IH [OF en1 win1 j])
    then show ?thesis
      using Suc cfg st1
      by (simp add: checkRateLimits_Cons w1_def [symmetric] algebra_simps del: checkRateLimits.simps(2))
  qed
qed


text \<open>
  The fixed window away from its last instant. With rate limiting disabled every
  call is allowed with no wait. With rate limiting enabled, in a window that starts
  with count 0 and whose calls all come no later than \<open>windowMs\<close> after its start, the
  first \<open>maxAttempts\<close> calls are allowed and every later call is refused with the wait
  \<open>windowMs - (now - windowStart)\<close>, which is never negative and is positive exactly
  when the call comes before the end of the window. A call later than \<open>windowMs\<close>
  after the start of the window restarts the window at the time of the call, with
  count 0, before it is counted.
\<close>

lemma checkRateLimit_fixed_window:
  fixes w :: WidgetInstance
  defines "rl \<equiv> rateLimit (config w)" and "st \<equiv> rateLimitState w"
  shows
  "(\<not> enabled rl \<longrightarrow>
      snd (checkRateLimits ts w) = replicate (length ts) \<lparr>allowed = True, retryAfter = 0\<rparr>) \<and>
   (enabled rl \<and> count st = 0 \<and> (\<forall>t\<in>set ts. t - windowStart st \<le> windowMs rl) \<and> k < length ts \<longrightarrow>
      (int k < maxAttempts rl \<longrightarrow>
         snd (checkRateLimits ts w) ! k = \<lparr>allowed = True, retryAfter = 0\<rparr>) \<and>
      (maxAttempts rl \<le> int k \<longrightarrow>
         snd (checkRateLimits ts w) ! k
           = \<lparr>allowed = False, retryAfter = windowMs rl - (ts ! k - windowStart st)\<rparr> \<and>
         0 \<le> retryAfter (snd (checkRateLimits ts w) ! k) \<and>
         (0 < retryAfter (snd (checkRateLimits ts w) ! k) \<longleftrightarrow> ts ! k - windowStart st < windowMs rl))) \<and>
   (windowMs rl < now - windowStart st \<longrightarrow>
      checkRateLimit now w = checkRateLimit now (w\<lparr>rateLimitState := \<lparr>count = 0, windowStart = now\<rparr>\<rparr>) \<and>
      rateLimitState (fst (checkRateLimit now w)) = \<lparr>count = 1, windowStart = now\<rparr>)"
proof (intro conjI impI)
  assume "\<not> enabled rl"
  then show "snd (checkRateLimits ts w) = replicate (length ts) \<lparr>allowed = True, retryAfter = 0\<rparr>"
    unfolding rl_def by (rule checkRateLimits_disabled)
next
  assume h: "enabled rl \<and> count st = 0 \<and> (\<forall>t\<in>set ts. t - windowStart st \<le> windowMs rl) \<and> k < length ts"
  assume "int k < maxAttempts rl"
  with h checkRateLimits_same_window [of w ts k]
  show "snd (checkRateLimits ts w) ! k = \<lparr>allowed = True, retryAfter = 0\<rparr>"
    by (simp add: rl_def st_def)
next
  assume h: "enabled rl \<and> count st = 0 \<and> (\<forall>t\<in>set ts. t - windowStart st \<le> windowMs rl) \<and> k < length ts"
  assume over: "maxAttempts rl \<le> int k"
  from h over checkRateLimits_same_window [of w ts k]
  show blocked: "snd (checkRateLimits ts w) ! k
           = \<lparr>allowed = False, retryAfter = windowMs rl - (ts ! k - windowStart st)\<rparr>"
    by (simp add: rl_def st_def)
  from h have "ts ! k - windowStart st \<le> windowMs rl" by simp
  with blocked show "0 \<le> retryAfter (snd (checkRateLimits ts w) ! k)" by simp
  from blocked
  show "0 < retryAfter (snd (checkRateLimits ts w) ! k) \<longleftrightarrow> ts ! k - windowStart st < windowMs rl"
    by simp
next
  assume "windowMs rl < now - windowStart st"
  then show "checkRateLimit now w
      = checkRateLimit now (w\<lparr>rateLimitState := \<lparr>count = 0, windowStart = now\<rparr>\<rparr>)"
    and "rateLimitState (fst (checkRateLimit now w)) = \<lparr>count = 1, windowStart = now\<rparr>"
    by (simp_all add: rl_def st_def checkRateLimit_def Let_def)
qed

text \<open>
  The quotas of the tests: a PUBLIC instance is never refused; on a CRITICAL instance
  (5 attempts per 60000 ms) the fifth call is allowed and the sixth, 50 ms into the
  window, is refused with a wait of 59950 ms; a call 70000 ms after the start of the
  window opens a new window.
\<close>

lemma checkRateLimit_fixed_window_example:
  "snd (checkRateLimits [0, 1, 2] (fst (connectedTest [(''security-tier'', ''public'')])))
     = [\<lparr>allowed = True, retryAfter = 0\<rparr>, \<lparr>allowed = True, retryAfter = 0\<rparr>,
        \<lparr>allowed = True, retryAfter = 0\<rparr>] \<and>
   snd (checkRateLimits [0, 10, 20, 30, 40, 50] (fst (connectedTest []))) ! 4
     = \<lparr>allowed = True, retryAfter = 0\<rparr> \<and>
   snd (checkRateLimits [0, 10, 20, 30, 40, 50] (fst (connectedTest []))) ! 5
     = \<lparr>allowed = False, retryAfter = 59950\<rparr> \<and>
   rateLimitState (fst (checkRateLimit 70000 (fst (connectedTest []))))
     = \<lparr>count = 1, windowStart = 70000\<rparr>"
proof -
  let ?pub = "fst (connectedTest [(''security-tier'', ''public'')])"
  let ?crit = "fst (connectedTest [])"
  let ?ts = "[0, 10, 20, 30, 40, 50] :: int list"
  have off: "\<not> enabled (rateLimit (config ?pub))"
    by (simp add: connectedTest_public)
  have on4: "enabled (rateLimit (config ?crit)) \<and> count (rateLimitState ?crit) = 0 \<and>
      (\<forall>t\<in>set ?ts. t - windowStart (rateLimitState ?crit) \<le> windowMs (rateLimit (config ?crit))) \<and>
      4 < length ?ts"
    by (simp add: connectedTest_critical)
  have on5: "enabled (rateLimit (config ?crit)) \<and> count (rateLimitState ?crit) = 0 \<and>
      (\<forall>t\<in>set ?ts. t - windowStart (rateLimitState ?crit) \<le> windowMs (rateLimit (config ?crit))) \<and>
      5 < length ?ts"
    by (simp add: connectedTest_critical)
  have late: "windowMs (rateLimit (config ?crit)) < 70000 - windowStart (rateLimitState ?crit)"
    by (simp add: connectedTest_critical)
  have quota: "int 4 < maxAttempts (rateLimit (config ?crit))"
    "maxAttempts (rateLimit (config ?crit)) \<le> int 5"
    "windowMs (rateLimit (config ?crit)) - (?ts ! 5 - windowStart (rateLimitState ?crit)) = 59950"
    by (simp_all add: connectedTest_critical)
  note fw = checkRateLimit_fixed_window
  have "snd (checkRateLimits [0, 1, 2] ?pub) = replicate (length [0, 1, 2 :: int]) \<lparr>allowed = True, retryAfter = 0\<rparr>"
    using off fw [of ?pub "[0, 1, 2]" 0 0] by blast
  then have p1: "snd (checkRateLimits [0, 1, 2] ?pub)
      = [\<lparr>allowed = True, retryAfter = 0\<rparr>, \<lparr>allowed = True, retryAfter = 0\<rparr>,
         \<lparr>allowed = True, retryAfter = 0\<rparr>]"
    by (simp del: checkRateLimits.simps)
  have p2: "snd (checkRateLimits ?ts ?crit) ! 4 = \<lparr>allowed = True, retryAfter = 0\<rparr>"
    using on4 quota(1) fw [of ?crit ?ts 4 0] by blast
  have "snd (checkRateLimits ?ts ?crit) ! 5
      = \<lparr>allowed = False,
         retryAfter = windowMs (rateLimit (config ?crit)) - (?ts ! 5 - windowStart (rateLimitState ?crit))\<rparr>"
    using on5 quota(2) fw [of ?crit ?ts 5 0] by blast
  then have p3: "snd (checkRateLimits ?ts ?crit) ! 5 = \<lparr>allowed = False, retryAfter = 59950\<rparr>"
    using quota(3) by (simp del: checkRateLimits.simps)
  have p4: "rateLimitState (fst (checkRateLimit 70000 ?crit)) = \<lparr>count = 1, windowStart = 70000\<rparr>"
    using late fw [of ?crit "[]" 0 70000] by blast
  from p1 p2 p3 p4 show ?thesis by blast
qed



text \<open>
  Claim C3. The claim holds of the fixed window except at its last instant, where the
  refusal comes with no wait. On a CRITICAL instance (5 attempts per 60000 ms) whose
  window starts at 0, five calls are allowed. The sixth call, made at time 60000, is
  not later than \<open>windowMs\<close> after the start of the window, so the window is not
  restarted: the call is counted in it and is refused, with
  \<open>retryAfter = 60000 - (60000 - 0) = 0\<close>. The claim, like the test of the blocked
  call, requires a refusal to carry a wait that is strictly positive.
\<close>

theorem checkRateLimit_refusal_without_wait:
  "map allowed (snd (checkRateLimits [0, 10, 20, 30, 40, 60000] (fst (connectedTest []))))
     = [True, True, True, True, True, False] \<and>
   allowed (snd (checkRateLimits [0, 10, 20, 30, 40, 60000] (fst (connectedTest []))) ! 5) = False \<and>
   retryAfter (snd (checkRateLimits [0, 10, 20, 30, 40, 60000] (fst (connectedTest []))) ! 5) = 0 \<and>
   \<not> 0 < retryAfter (snd (checkRateLimits [0, 10, 20, 30, 40, 60000] (fst (connectedTest []))) ! 5) \<and>
   rateLimitState (fst (checkRateLimits [0, 10, 20, 30, 40, 60000] (fst (connectedTest []))))
     = \<lparr>count = 6, windowStart = 0\<rparr>"
  by (simp add: connectedTest_critical checkRateLimit_def Let_def)

section \<open>Properties of the sanitizer and the validator\<close>


lemma startsWith_set: "startsWith s p \<Longrightarrow> set p \<subseteq> set s"
  by (induction s p rule: startsWith.induct) auto

lemma includes_str_set: "includes_str s p \<Longrightarrow> set p \<subseteq> set s"
proof (induction s)
  case Nil
  then show ?case by simp
next
  case (Cons c cs)
  from Cons.prems have "startsWith (c # cs) p \<or> includes_str cs p" by simp
  then show ?case
  proof
    assume "startsWith (c # cs) p"
    then show ?thesis by (rule startsWith_set)
  next
    assume "includes_str cs p"
    then have "set p \<subseteq> set cs" by (rule Cons.IH)
    then show ?thesis by auto
  qed
qed

lemma encodeChar_safe: "set (encodeChar c) \<inter> {CHR ''<'', CHR ''>''} = {}"
  by (simp add: encodeChar_def)

lemma encodeChar_plain:
  "c \<notin> {CHR ''&'', CHR ''<'', CHR ''>'', CHR 0xA0} \<Longrightarrow> encodeChar c = [c]"
  by (simp add: encodeChar_def)

lemma sanitizeValue_safe: "set (sanitizeValue v) \<inter> {CHR ''<'', CHR ''>''} = {}"
proof (cases v)
  case (JStr s)
  have "set (concat (map encodeChar s)) \<inter> {CHR ''<'', CHR ''>''} = {}"
  proof (induction s)
    case Nil
    show ?case by simp
  next
    case (Cons c cs)
    with encodeChar_safe [of c] show ?case by (simp add: Int_Un_distrib2)
  qed
  with JStr show ?thesis by (simp add: sanitizeValue_def)
qed (simp_all add: sanitizeValue_def)

text \<open>
  A string without ampersand, less-than sign, greater-than sign and no-break space is
  returned unchanged, whatever quotation marks it holds.
\<close>

lemma sanitizeValue_plain:
  "set s \<inter> {CHR ''&'', CHR ''<'', CHR ''>'', CHR 0xA0} = {} \<Longrightarrow> sanitizeValue (JStr s) = s"
proof (induction s)
  case Nil
  show ?case by (simp add: sanitizeValue_def)
next
  case (Cons c cs)
  from Cons.prems have c: "c \<notin> {CHR ''&'', CHR ''<'', CHR ''>'', CHR 0xA0}"
    and cs: "set cs \<inter> {CHR ''&'', CHR ''<'', CHR ''>'', CHR 0xA0} = {}"
    by auto
  from Cons.IH [OF cs] encodeChar_plain [OF c] show ?case
    by (simp add: sanitizeValue_def)
qed

lemma sanitizeValue_append:
  "sanitizeValue (JStr (a @ b)) = sanitizeValue (JStr a) @ sanitizeValue (JStr b)"
  by (simp add: sanitizeValue_def)

text \<open>
  What the encoding does achieve. A value that is not a string is sanitized to the
  empty string. The sanitized form of a string is the concatenation of the sanitized
  forms of its parts, and each of the characters ampersand, less-than and
  greater-than is written as its entity. So the output holds no less-than and no
  greater-than character, and in particular never the text \<^verbatim>\<open><script>\<close>; a string
  with none of the characters ampersand, less-than, greater-than and no-break space
  is returned unchanged. The script example of the tests is encoded as they expect.
\<close>

lemma sanitizeValue_encodes_tags:
  "(\<not> isString v \<longrightarrow> sanitizeValue v = []) \<and>
   sanitizeValue (JStr (a @ b)) = sanitizeValue (JStr a) @ sanitizeValue (JStr b) \<and>
   sanitizeValue (JStr ''&'') = ''&amp;'' \<and>
   sanitizeValue (JStr ''<'') = ''&lt;'' \<and>
   sanitizeValue (JStr ''>'') = ''&gt;'' \<and>
   set (sanitizeValue v) \<inter> {CHR ''<'', CHR ''>''} = {} \<and>
   \<not> includes_str (sanitizeValue v) ''<script>'' \<and>
   (set s \<inter> {CHR ''&'', CHR ''<'', CHR ''>'', CHR 0xA0} = {} \<longrightarrow> sanitizeValue (JStr s) = s) \<and>
   sanitizeValue (JStr ''<script>alert(1)</script>'') = ''&lt;script&gt;alert(1)&lt;/script&gt;'' \<and>
   includes_str (sanitizeValue (JStr ''<script>alert(1)</script>'')) ''&lt;''"
proof -
  have other: "\<not> isString v \<longrightarrow> sanitizeValue v = []"
    by (cases v) (simp_all add: isString_def sanitizeValue_def)
  have single: "sanitizeValue (JStr ''&'') = ''&amp;''" "sanitizeValue (JStr ''<'') = ''&lt;''"
    "sanitizeValue (JStr ''>'') = ''&gt;''"
    by (simp_all add: sanitizeValue_def encodeChar_def)
  have noscript: "\<not> includes_str (sanitizeValue v) ''<script>''"
  proof
    assume "includes_str (sanitizeValue v) ''<script>''"
    then have "set ''<script>'' \<subseteq> set (sanitizeValue v)" by (rule includes_str_set)
    then have "CHR ''<'' \<in> set (sanitizeValue v)" by simp
    with sanitizeValue_safe [of v] show False by auto
  qed
  have ex: "sanitizeValue (JStr ''<script>alert(1)</script>'') = ''&lt;script&gt;alert(1)&lt;/script&gt;''"
    by (simp add: sanitizeValue_def encodeChar_def)
  have ex2: "includes_str ''&lt;script&gt;alert(1)&lt;/script&gt;'' ''&lt;''"
    by simp
  show ?thesis
    using other single noscript ex ex2 sanitizeValue_append [of a b] sanitizeValue_safe [of v]
      sanitizeValue_plain [of s]
    by (simp del: includes_str.simps startsWith.simps)
qed

text \<open>The values of the tests that are no strings, and their safe text.\<close>

lemma sanitizeValue_examples:
  "sanitizeValue (JNum 123) = []" "sanitizeValue JNull = []" "sanitizeValue JUndefined = []"
  "sanitizeValue (JStr []) = []"
  "sanitizeValue (JStr ''Hello, World!'') = ''Hello, World!''"
  "sanitizeValue (JStr ''Tom & Jerry'') = ''Tom &amp; Jerry''"
  by (simp_all add: sanitizeValue_def encodeChar_def)

text \<open>
  A no-break space is not one of the five characters of the specification, and it is
  not returned unchanged: it is written as an entity.
\<close>

lemma sanitizeValue_no_break_space:
  "sanitizeValue (JStr [CHR ''a'', CHR 0xA0, CHR ''b'']) = ''a&nbsp;b''"
  by (simp add: sanitizeValue_def encodeChar_def)

text \<open>
  Claim C4. The two quotation marks are not encoded. Of the image example of the
  tests, \<^verbatim>\<open><img src=x onerror="alert(1)">\<close>, only the angle brackets are rewritten:
  the result still holds both double quotes of the \<^verbatim>\<open>onerror\<close> attribute. A double
  quote alone and a single quote alone are returned as they are. The claim requires
  both characters to be written as entities, so that no attribute syntax survives.
\<close>

theorem sanitizeValue_leaves_quotes:
  "sanitizeValue (JStr (''<img src=x onerror='' @ [CHR 0x22] @ ''alert(1)'' @ [CHR 0x22] @ ''>''))
     = ''&lt;img src=x onerror='' @ [CHR 0x22] @ ''alert(1)'' @ [CHR 0x22] @ ''&gt;'' \<and>
   CHR 0x22 \<in> set (sanitizeValue
     (JStr (''<img src=x onerror='' @ [CHR 0x22] @ ''alert(1)'' @ [CHR 0x22] @ ''>''))) \<and>
   sanitizeValue (JStr [CHR 0x22]) = [CHR 0x22] \<and>
   sanitizeValue (JStr [CHR 0x27]) = [CHR 0x27]"
  by (simp add: sanitizeValue_def encodeChar_def)

text \<open>
  Claim C5. The messages of \<^verbatim>\<open>validateInput\<close> are, in this order, the message of the
  required check if it fails, of the minimum length check if it fails, of the maximum
  length check if it fails and of the pattern check if it fails: every check runs,
  whatever the checks before it found. The result is valid exactly when the list of
  messages is empty, that is, when no check fails. An empty value under
  \<^verbatim>\<open>required\<close>, a minimum length of 5 and a digits-only pattern gets three messages,
  and a value that is too short, too long and not digits gets three as well.
\<close>

theorem validateInput_collects:
  fixes w :: WidgetInstance and opts :: Constraints
  defines "req \<equiv> (case c_required opts of Some r \<Rightarrow> r | None \<Rightarrow> required (validation (config w)))"
    and "maxLen \<equiv> (case c_maxLength opts of Some n \<Rightarrow> n | None \<Rightarrow> maxLength (validation (config w)))"
  shows
  "errors (validateInput v opts w) =
     (if req \<and> v = [] then [RequiredMessage] else [])
     @ (case c_minLength opts of
          Some n \<Rightarrow> if int (length v) < n then [MinLengthMessage n] else []
        | None \<Rightarrow> [])
     @ (if maxLen < int (length v) then [MaxLengthMessage maxLen] else [])
     @ (case c_pattern opts of
          Some p \<Rightarrow> if p v then [] else [PatternMessage]
        | None \<Rightarrow> []) \<and>
   valid (validateInput v opts w) = (errors (validateInput v opts w) = []) \<and>
   valid (validateInput v opts w) =
     (\<not> (req \<and> v = [])
      \<and> (case c_minLength opts of Some n \<Rightarrow> n \<le> int (length v) | None \<Rightarrow> True)
      \<and> int (length v) \<le> maxLen
      \<and> (case c_pattern opts of Some p \<Rightarrow> p v | None \<Rightarrow> True)) \<and>
   errors (validateInput []
             \<lparr>c_required = Some True, c_minLength = Some 5, c_maxLength = Some 10,
              c_pattern = Some (\<lambda>s. s \<noteq> [] \<and> list_all isDigit s)\<rparr> w)
     = [RequiredMessage, MinLengthMessage 5, PatternMessage] \<and>
   errors (validateInput ''abcdef''
             \<lparr>c_required = Some True, c_minLength = Some 8, c_maxLength = Some 4,
              c_pattern = Some (\<lambda>s. s \<noteq> [] \<and> list_all isDigit s)\<rparr> w)
     = [MinLengthMessage 8, MaxLengthMessage 4, PatternMessage]"
  unfolding req_def maxLen_def
  by (simp add: validateInput_def Let_def isDigit_def split: option.splits)


theorem validateInput_collects_witness:
  "errors (validateInput []
      \<lparr>c_required = None, c_minLength = None, c_maxLength = None, c_pattern = None\<rparr>
      (fst (connectedTest [(''security-tier'', ''authenticated'')]))) = [RequiredMessage] \<and>
   valid (validateInput []
      \<lparr>c_required = None, c_minLength = None, c_maxLength = None, c_pattern = None\<rparr>
      (fst (connectedTest [(''security-tier'', ''authenticated'')]))) = False \<and>
   valid (validateInput ''valid value''
      \<lparr>c_required = None, c_minLength = None, c_maxLength = None, c_pattern = None\<rparr>
      (fst (connectedTest [(''security-tier'', ''authenticated'')]))) = True"
  using validateInput_collects
      [of "[]" "\<lparr>c_required = None, c_minLength = None, c_maxLength = None, c_pattern = None\<rparr>"
          "fst (connectedTest [(''security-tier'', ''authenticated'')])"]
    validateInput_collects
      [of "''valid value''"
          "\<lparr>c_required = None, c_minLength = None, c_maxLength = None, c_pattern = None\<rparr>"
          "fst (connectedTest [(''security-tier'', ''authenticated'')])"]
  by (simp add: connectedTest_authenticated)

section \<open>Properties of the audit log\<close>


lemma isDigit_digitChar: "isDigit (digitChar n)"
proof -
  have "nat (n mod 10) < length ''0123456789''" by simp
  then have "''0123456789'' ! nat (n mod 10) \<in> set ''0123456789''"
    by (rule nth_mem)
  then show ?thesis by (simp only: isDigit_def digitChar_def)
qed

lemma time_shape:
  "matchesShape ''-dd-ddTdd:dd:dd.dddZ''
     (''-'' @ pad2 m @ ''-'' @ pad2 d @ ''T'' @ pad2 h @ '':'' @ pad2 mi @ '':''
      @ pad2 s @ ''.'' @ pad3 ms @ ''Z'')"
  by (simp add: pad2_def pad3_def isDigit_digitChar)

lemma year_shape:
  assumes "matchesShape ''-dd-ddTdd:dd:dd.dddZ'' rest"
  shows "isISO8601 (yearString y @ rest)"
proof (cases "0 \<le> y \<and> y \<le> 9999")
  case True
  with assms have "matchesShape ''dddd-dd-ddTdd:dd:dd.dddZ'' (yearString y @ rest)"
    by (simp add: yearString_def pad4_def pad3_def isDigit_digitChar)
  then show ?thesis by (simp only: isISO8601_def simp_thms)
next
  case False
  with assms have "matchesShape ''+dddddd-dd-ddTdd:dd:dd.dddZ'' (yearString y @ rest)
      \<or> matchesShape ''-dddddd-dd-ddTdd:dd:dd.dddZ'' (yearString y @ rest)"
    by (simp add: yearString_def pad6_def pad4_def pad3_def isDigit_digitChar)
  then show ?thesis by (simp only: isISO8601_def simp_thms)
qed

lemma isISO8601_toISOString: "isISO8601 (toISOString t)"
  unfolding toISOString_def Let_def by (rule year_shape) (rule time_shape)


lemma map_of_setProp: "map_of (setProp k v obj) = (map_of obj)(k \<mapsto> v)"
  by (induction obj) auto

lemma map_of_spread: "map_of (spread obj src) = map_of obj ++ map_of (rev src)"
  unfolding spread_def
proof (induction src arbitrary: obj)
  case Nil
  show ?case by simp
next
  case (Cons p src)
  obtain k v where p: "p = (k, v)" by (cases p)
  have "map_of (fold (\<lambda>(k, v). setProp k v) src (setProp k v obj))
      = map_of (setProp k v obj) ++ map_of (rev src)"
    by (rule Cons.IH)
  then show ?case
    by (simp add: p map_of_setProp map_add_def fun_eq_iff split: option.splits)
qed

lemma getProp_spread_kept:
  "k \<notin> fst ` set src \<Longrightarrow> getProp (spread obj src) k = getProp obj k"
proof -
  assume "k \<notin> fst ` set src"
  then have "map_of (rev src) k = None" by (simp add: map_of_eq_None_iff)
  then show ?thesis by (simp add: getProp_def map_of_spread map_add_def)
qed

lemma getProp_spread_data:
  "map_of (rev src) k = Some v \<Longrightarrow> getProp (spread obj src) k = v"
  by (simp add: getProp_def map_of_spread map_add_def)

text \<open>
  The entry of a call: the properties of \<^verbatim>\<open>data\<close>, and the event tag, the clock
  reading as an ISO-8601 string and the tier of the instance under each of the keys
  \<^verbatim>\<open>event\<close>, \<^verbatim>\<open>timestamp\<close> and \<^verbatim>\<open>tier\<close> that \<^verbatim>\<open>data\<close> does not define.
\<close>

lemma auditEntry_properties:
  "''event'' \<notin> fst ` set data \<Longrightarrow> getProp (auditEntry ev data now w) ''event'' = JStr ev"
  "''timestamp'' \<notin> fst ` set data \<Longrightarrow>
     getProp (auditEntry ev data now w) ''timestamp'' = JStr (toISOString now)"
  "''tier'' \<notin> fst ` set data \<Longrightarrow>
     getProp (auditEntry ev data now w) ''tier'' = JStr (tierString (securityTier w))"
  "map_of (rev data) k = Some v \<Longrightarrow> getProp (auditEntry ev data now w) k = v"
  by (simp_all add: auditEntry_def getProp_spread_kept getProp_spread_data)
     (simp_all add: getProp_def)

lemma arrays_mutateArray:
  "arrays (mutateArray a f env) = (arrays env)[a := f (arrays env ! a)]"
  "objects (mutateArray a f env) = objects env"
  by (simp_all add: mutateArray_def)

lemma callerMutates_length: "length (arrays (callerMutates a fs env)) = length (arrays env)"
  unfolding callerMutates_def
  by (induction fs arbitrary: env) (simp_all add: arrays_mutateArray)

lemma callerMutates_other:
  "a \<noteq> b \<Longrightarrow> arrays (callerMutates a fs env) ! b = arrays env ! b"
  unfolding callerMutates_def
  by (induction fs arbitrary: env) (simp_all add: arrays_mutateArray)

lemma callerMutates_objects: "objects (callerMutates a fs env) = objects env"
  unfolding callerMutates_def
  by (induction fs arbitrary: env) (simp_all add: arrays_mutateArray)

lemma getAuditLog_fresh:
  "snd (getAuditLog w env) = length (arrays env)"
  "arrays (fst (getAuditLog w env)) = arrays env @ [arrays env ! auditLog w]"
  "objects (fst (getAuditLog w env)) = objects env"
  by (simp_all add: getAuditLog_def newArray_def)

lemma audit_arrays:
  "arrays (audit ev data now w env)
     = (arrays env)[auditLog w := arrays env ! auditLog w @ [length (objects env)]]"
  "objects (audit ev data now w env) = objects env @ [auditEntry ev data now w]"
  by (simp_all add: audit_def newObject_def Let_def arrays_mutateArray)

text \<open>
  A call of \<^verbatim>\<open>audit\<close> on an instance whose log array exists and holds addresses of
  objects creates one object, the entry, and pushes it on that array: the log holds
  the entries it held, unchanged, and the new entry after them. Every other array is
  as it was.
\<close>

lemma audit_appends_one_entry:
  assumes live: "auditLog w < length (arrays env)"
    and refs: "\<forall>e\<in>set (arrays env ! auditLog w). e < length (objects env)"
  shows "elements (auditLog w) (audit ev data now w env)
           = elements (auditLog w) env @ [auditEntry ev data now w]"
    and "a \<noteq> auditLog w \<Longrightarrow> arrays (audit ev data now w env) ! a = arrays env ! a"
proof -
  have "map (\<lambda>e. (objects env @ [auditEntry ev data now w]) ! e) (arrays env ! auditLog w)
      = map (\<lambda>e. objects env ! e) (arrays env ! auditLog w)"
    using refs by (simp add: nth_append)
  then show "elements (auditLog w) (audit ev data now w env)
           = elements (auditLog w) env @ [auditEntry ev data now w]"
    using live by (simp add: elements_def audit_arrays)
  show "a \<noteq> auditLog w \<Longrightarrow> arrays (audit ev data now w env) ! a = arrays env ! a"
    by (simp add: audit_arrays)
qed

text \<open>
  \<^verbatim>\<open>getAuditLog\<close> returns a new array, different from the log array, that holds the
  entries of the log. Whatever the caller then does to the array it received, the log
  array and the entries are unchanged, and the next \<^verbatim>\<open>getAuditLog\<close> returns the
  entries of the log again.
\<close>

lemma getAuditLog_copies_the_array:
  assumes live: "auditLog w < length (arrays env)"
  shows "snd (getAuditLog w env) \<noteq> auditLog w"
    and "elements (snd (getAuditLog w env)) (fst (getAuditLog w env)) = elements (auditLog w) env"
    and "arrays (callerMutates (snd (getAuditLog w env)) fs (fst (getAuditLog w env))) ! auditLog w
           = arrays env ! auditLog w"
    and "elements (snd (getAuditLog w (callerMutates (snd (getAuditLog w env)) fs (fst (getAuditLog w env)))))
           (fst (getAuditLog w (callerMutates (snd (getAuditLog w env)) fs (fst (getAuditLog w env)))))
           = elements (auditLog w) env"
proof -
  let ?r = "snd (getAuditLog w env)"
  let ?env1 = "fst (getAuditLog w env)"
  let ?env2 = "callerMutates ?r fs ?env1"
  show fresh: "?r \<noteq> auditLog w" using live by (simp add: getAuditLog_fresh)
  show "elements ?r ?env1 = elements (auditLog w) env"
    by (simp add: elements_def getAuditLog_fresh)
  have kept: "arrays ?env1 ! auditLog w = arrays env ! auditLog w"
    using live by (simp add: getAuditLog_fresh nth_append)
  show frame: "arrays ?env2 ! auditLog w = arrays env ! auditLog w"
    using callerMutates_other [OF fresh, of fs ?env1] kept by simp
  have objs: "objects ?env2 = objects env"
    by (simp add: callerMutates_objects getAuditLog_fresh)
  show "elements (snd (getAuditLog w ?env2)) (fst (getAuditLog w ?env2)) = elements (auditLog w) env"
    using frame objs by (simp add: elements_def getAuditLog_fresh)
qed

text \<open>
  The copy is shallow: the array returned holds the entry objects of the log
  themselves. After one call of \<^verbatim>\<open>audit\<close> on a CRITICAL instance, a caller that
  assigns to the \<^verbatim>\<open>tier\<close> of the first element of the array it received changes the
  entry in the log, and the next \<^verbatim>\<open>getAuditLog\<close> shows the change.
\<close>

lemma getAuditLog_shares_the_entries:
  "(case getAuditLog (fst (connectedTest []))
           (audit ''test_access'' [] 0 (fst (connectedTest [])) startEnv) of
      (env1, r) \<Rightarrow>
        getProp (elements r env1 ! 0) ''tier'' = JStr ''critical'' \<and>
        (case getAuditLog (fst (connectedTest []))
                (callerMutatesElement r 0 (setProp ''tier'' (JStr ''public'')) env1) of
           (env2, r') \<Rightarrow>
             r' \<noteq> r \<and> getProp (elements r' env2 ! 0) ''tier'' = JStr ''public''))"
  by code_simp

text \<open>
  Claim C6. The entry does not always hold the tier of the instance: \<^verbatim>\<open>data\<close> is
  spread after the three fixed properties, so a key of \<^verbatim>\<open>data\<close> with the name of
  one of them takes its place. On a CRITICAL instance with an empty log, \<^verbatim>\<open>audit\<close>
  with the data \<^verbatim>\<open>{tier: 'public'}\<close> appends one entry, and the tier of that entry is
  \<^verbatim>\<open>public\<close>, not the tier of the instance as the claim requires.
\<close>

theorem audit_data_overrides_tier:
  "securityTier (fst (connectedTest [])) = CRITICAL \<and>
   elements (auditLog (fst (connectedTest []))) startEnv = [] \<and>
   elements (auditLog (fst (connectedTest [])))
       (audit ''test_access'' [(''tier'', JStr ''public'')] 0 (fst (connectedTest [])) startEnv)
     = [[(''event'', JStr ''test_access''), (''timestamp'', JStr ''1970-01-01T00:00:00.000Z''),
         (''tier'', JStr ''public'')]] \<and>
   getProp (last (elements (auditLog (fst (connectedTest [])))
                    (audit ''test_access'' [(''tier'', JStr ''public'')] 0
                       (fst (connectedTest [])) startEnv))) ''tier''
     \<noteq> JStr (tierString (securityTier (fst (connectedTest []))))"
  by code_simp

lemma clearAuditLog_empties:
  "auditLog w < length (arrays env) \<Longrightarrow> arrays (clearAuditLog w env) ! auditLog w = []"
  by (simp add: clearAuditLog_def arrays_mutateArray)

section \<open>Properties of the platform functions\<close>

text \<open>
  The keys of an object come in the order of the language: array indices first, in
  ascending order, then the other keys as they were created; a key that exists keeps
  its place.
\<close>

lemma spread_key_order:
  "spread [(''event'', JStr ''e'')]
       [(''b'', JNull), (''1'', JNull), (''0'', JNull), (''event'', JNull), (''01'', JNull)]
     = [(''0'', JNull), (''1'', JNull), (''event'', JNull), (''b'', JNull), (''01'', JNull)]"
  by code_simp

lemma trim_examples:
  "trim ([CHR 0xA0] @ '' us '' @ [CHR 0x09]) = ''us''"
  "trim ''a b'' = ''a b''"
  by code_simp+

lemma bitLength_bound: "n < 2 ^ k \<Longrightarrow> bitLength n \<le> k"
proof (induction k arbitrary: n)
  case 0
  then show ?case by (simp add: bitLength.simps)
next
  case (Suc k)
  show ?case
  proof (cases "n \<le> 0")
    case True
    then show ?thesis by (simp add: bitLength.simps)
  next
    case False
    from Suc.prems have "n div 2 < 2 ^ k" by simp
    then have "bitLength (n div 2) \<le> k" by (rule Suc.IH)
    with False show ?thesis by (subst bitLength.simps) simp
  qed
qed

text \<open>An integer below \<open>2^53\<close> is a double; above, the nearest double is taken.\<close>

lemma roundToDouble_exact:
  assumes "0 \<le> n" and small: "n < 2 ^ 53"
  shows "roundToDouble n = Some n"
proof -
  from small have e: "bitLength n - 53 = 0" using bitLength_bound [of n 53] by simp
  have "n < 2 ^ 1024"
  proof -
    have "(2::int) ^ 53 \<le> 2 ^ 1024" by (rule power_increasing) simp_all
    with small show ?thesis by simp
  qed
  then have "bitLength n \<le> 1024" by (rule bitLength_bound)
  with e show ?thesis by (simp add: roundToDouble_def Let_def)
qed

lemma parseInt10_examples:
  "parseInt10 ''4'' = Integral 4"
  "parseInt10 ([CHR 0xA0] @ '' 12px'') = Integral 12"
  "parseInt10 ''-3'' = Integral (- 3)"
  "parseInt10 ''abc'' = NaN"
  "parseInt10 ''9007199254740993'' = Integral 9007199254740992"
  "parseInt10 ''9007199254740995'' = Integral 9007199254740996"
  by code_simp+

lemma toSelectSize_examples:
  "toSelectSize (parseInt10 ''4'') = 4"
  "toSelectSize (parseInt10 ''0'') = 0"
  "toSelectSize (parseInt10 ''4294967297'') = 1"
  "toSelectSize (parseInt10 ''-1'') = 0"
  "toSelectSize (parseInt10 ''x'') = 0"
  "toSelectSize (Infinity False) = 0"
  by code_simp+

text \<open>
  The display size is 1 or 4 only while the element has no \<^verbatim>\<open>size\<close> attribute.
  A single select without the attribute, or with size 1, selects its first option
  when none is selected; with \<^verbatim>\<open>size="0"\<close> the display size is 0 and no option is
  selected for it.
\<close>

lemma displaySize_examples:
  "displaySize createSelect = 1"
  "displaySize (createSelect\<lparr>sel_multiple := True\<rparr>) = 4"
  "displaySize (createSelect\<lparr>sel_size := Some 0\<rparr>) = 0"
  by (simp_all add: displaySize_def createSelect_def)

lemma size_attribute_and_first_option:
  "get_value (runMicrotasks (fst (connectedSelect [] plainOptions))
                (snd (connectedSelect [] plainOptions))) = ''a''"
  "get_value (runMicrotasks (fst (connectedSelect [(''size'', ''0'')] plainOptions))
                (snd (connectedSelect [(''size'', ''0'')] plainOptions))) = []"
  "get_value (runMicrotasks (fst (connectedSelect [(''size'', ''1'')] plainOptions))
                (snd (connectedSelect [(''size'', ''1'')] plainOptions))) = ''a''"
  by code_simp+

section \<open>Properties of the secure-select widget\<close>


lemma withSelect_flag: "optionsTransferred (fst (withSelect f x)) = optionsTransferred x"
  by (simp add: withSelect_def split: option.splits)

lemma transferOption_flag:
  "optionsTransferred (fst (fst (transferOption option (x, sv)))) = optionsTransferred x"
  by (simp add: transferOption_def Let_def split: option.splits)

lemma forEach_transferOption_flag:
  "optionsTransferred (fst (fst (forEach transferOption ls s))) = optionsTransferred (fst s)"
proof (induction ls arbitrary: s)
  case Nil
  show ?case by simp
next
  case (Cons option ls)
  obtain x sv where s: "s = (x, sv)" by (cases s)
  obtain s1 r where step: "transferOption option (x, sv) = (s1, r)"
    by (cases "transferOption option (x, sv)")
  have s1: "optionsTransferred (fst s1) = optionsTransferred x"
    using transferOption_flag [of option x sv] step by simp
  show ?case
  proof (cases r)
    case None
    with Cons.IH [of s1] s step s1 show ?thesis by (simp add: andThen_def)
  next
    case (Some e)
    with s step s1 show ?thesis by (simp add: andThen_def)
  qed
qed

lemma transferOptions_sets_flag: "optionsTransferred (fst (transferOptions w x))"
proof (cases "optionsTransferred x")
  case True
  then show ?thesis by (simp add: transferOptions_def)
next
  case False
  let ?x1 = "x\<lparr>optionsTransferred := True\<rparr>"
  show ?thesis
  proof (cases "lightOptions x = []")
    case True
    with False show ?thesis by (simp add: transferOptions_def Let_def)
  next
    case nonempty: False
    obtain x2 sv r where run: "forEach transferOption (lightOptions x) (?x1, []) = ((x2, sv), r)"
      by (cases "forEach transferOption (lightOptions x) (?x1, [])") auto
    have x2: "optionsTransferred x2"
      using forEach_transferOption_flag [of "lightOptions x" "(?x1, [])"] run by simp
    then have "optionsTransferred (fst (withSelect f x2))" for f
      by (simp add: withSelect_flag)
    with False nonempty run x2 show ?thesis
      by (simp add: transferOptions_def Let_def split: option.splits)
  qed
qed

lemma transferOptions_guarded:
  "transferOptions w (x\<lparr>optionsTransferred := True\<rparr>) = (x\<lparr>optionsTransferred := True\<rparr>, None)"
  by (simp add: transferOptions_def)

lemma transferOptions_again:
  "transferOptions w' (fst (transferOptions w x)) = (fst (transferOptions w x), None)"
  using transferOptions_sets_flag [of w x] by (simp add: transferOptions_def)

lemma transferOptions_funpow:
  "((\<lambda>y. fst (transferOptions w y)) ^^ Suc n) x = fst (transferOptions w x)"
proof (induction n)
  case 0
  show ?case by simp
next
  case (Suc n)
  have "((\<lambda>y. fst (transferOptions w y)) ^^ Suc (Suc n)) x
      = fst (transferOptions w (((\<lambda>y. fst (transferOptions w y)) ^^ Suc n) x))"
    by simp
  also have "\<dots> = fst (transferOptions w (fst (transferOptions w x)))"
    by (simp only: Suc.IH)
  also have "\<dots> = fst (transferOptions w x)"
    by (simp add: transferOptions_again)
  finally show ?case .
qed

text \<open>
  Claim C8. \<^verbatim>\<open>#transferOptions\<close> sets its guard on the first entry. Run on a state
  whose guard is set, it returns that state unchanged and throws nothing, whatever the
  attributes and the light-DOM children have become: no option is added, the set of
  valid options and the value of the select stay as they are. So running it twice
  equals running it once, any number of queued runs equals one run, and the
  microtask checkpoint after several renders transfers the options once. Each
  \<^verbatim>\<open>render\<close> queues one run.
\<close>

theorem transferOptions_runs_once:
  "optionsTransferred (fst (transferOptions w x)) \<and>
   transferOptions w' (y\<lparr>optionsTransferred := True\<rparr>) = (y\<lparr>optionsTransferred := True\<rparr>, None) \<and>
   transferOptions w' (fst (transferOptions w x)) = (fst (transferOptions w x), None) \<and>
   transferOptions w' ((fst (transferOptions w x))\<lparr>lightOptions := children\<rparr>)
     = ((fst (transferOptions w x))\<lparr>lightOptions := children\<rparr>, None) \<and>
   fst (transferOptions w (fst (transferOptions w x))) = fst (transferOptions w x) \<and>
   ((\<lambda>y. fst (transferOptions w y)) ^^ Suc n) x = fst (transferOptions w x) \<and>
   runMicrotasks w (x\<lparr>microtasks := Suc n\<rparr>) = fst (transferOptions w (x\<lparr>microtasks := 0\<rparr>)) \<and>
   microtasks (SecureSelect_render w x) = microtasks x + 1"
proof -
  have moved: "transferOptions w' ((fst (transferOptions w x))\<lparr>lightOptions := children\<rparr>)
     = ((fst (transferOptions w x))\<lparr>lightOptions := children\<rparr>, None)"
    using transferOptions_sets_flag [of w x] by (simp add: transferOptions_def)
  have queue: "runMicrotasks w (x\<lparr>microtasks := Suc n\<rparr>) = fst (transferOptions w (x\<lparr>microtasks := 0\<rparr>))"
    unfolding runMicrotasks_def using transferOptions_funpow [where w = w and n = n and x = "x\<lparr>microtasks := 0\<rparr>"]
    by simp
  have sched: "microtasks (SecureSelect_render w x) = microtasks x + 1"
    by (simp add: SecureSelect_render_def)
  show ?thesis
    using transferOptions_sets_flag [of w x] transferOptions_guarded [of w' y]
      transferOptions_again [of w' w x] transferOptions_again [of w w x]
      transferOptions_funpow [where w = w and n = n and x = x] moved queue sched
    by (simp del: funpow.simps)
qed


theorem transferOptions_runs_once_witness:
  "get_value (fst (transferOptions (fst (connectedSelect [] countryOptions))
                    (snd (connectedSelect [] countryOptions)))) = ''uk'' \<and>
   length (sel_options (the (selectElement
      (fst (transferOptions (fst (connectedSelect [] countryOptions))
              (snd (connectedSelect [] countryOptions))))))) = 4 \<and>
   length (sel_options (the (selectElement
      (fst (transferOptions (fst (connectedSelect [] countryOptions))
         (fst (transferOptions (fst (connectedSelect [] countryOptions))
                 (snd (connectedSelect [] countryOptions))))))))) = 4"
proof -
  let ?w = "fst (connectedSelect [] countryOptions)"
  let ?x = "snd (connectedSelect [] countryOptions)"
  have picked: "get_value (fst (transferOptions ?w ?x)) = ''uk''" by code_simp
  have once: "length (sel_options (the (selectElement (fst (transferOptions ?w ?x))))) = 4"
    by code_simp
  note idem = transferOptions_runs_once
    [where w = ?w and x = ?x, THEN conjunct2, THEN conjunct2, THEN conjunct2, THEN conjunct2,
     THEN conjunct1]
  have twice: "length (sel_options (the (selectElement
      (fst (transferOptions ?w (fst (transferOptions ?w ?x))))))) = 4"
    by (simp only: idem once)
  show ?thesis
    by (intro conjI) (rule picked, rule once, rule twice)
qed


lemma find_deselectAll: "find opt_selected (deselectAll opts) = None"
  by (induction opts) (simp_all add: deselectAll_def)

lemma find_selectFirstWith:
  "find opt_selected opts = None \<Longrightarrow>
     find opt_selected (selectFirstWith P opts)
       = map_option (\<lambda>opt. opt\<lparr>opt_selected := True\<rparr>) (find P opts)"
  by (induction opts) (auto split: if_splits)

lemma find_value_deselectAll:
  "map_option opt_value (find (\<lambda>opt. opt_value opt = v) (deselectAll opts))
     = (if list_ex (\<lambda>opt. opt_value opt = v) opts then Some v else None)"
  by (induction opts) (auto simp: deselectAll_def split: if_splits)

lemma selectValue_setSelectValue:
  "selectValue (setSelectValue v sel)
     = (if list_ex (\<lambda>opt. opt_value opt = v) (sel_options sel) then v else [])"
proof -
  have "find opt_selected (selectFirstWith (\<lambda>opt. opt_value opt = v) (deselectAll (sel_options sel)))
      = map_option (\<lambda>opt. opt\<lparr>opt_selected := True\<rparr>)
          (find (\<lambda>opt. opt_value opt = v) (deselectAll (sel_options sel)))"
    by (rule find_selectFirstWith) (rule find_deselectAll)
  moreover have "map_option opt_value
      (map_option (\<lambda>opt. opt\<lparr>opt_selected := True\<rparr>)
         (find (\<lambda>opt. opt_value opt = v) (deselectAll (sel_options sel))))
      = (if list_ex (\<lambda>opt. opt_value opt = v) (sel_options sel) then Some v else None)"
    using find_value_deselectAll [of v "sel_options sel"]
    by (simp add: option.map_comp comp_def)
  ultimately show ?thesis
    by (cases "find (\<lambda>opt. opt_value opt = v) (deselectAll (sel_options sel))")
       (auto simp: selectValue_def setSelectValue_def split: if_splits)
qed

lemma selectValue_reset: "selectValue (setSelectValue [] sel) = []"
  by (simp add: selectValue_setSelectValue)

lemma selectValue_errorClass: "selectValue (sel\<lparr>sel_errorClass := b\<rparr>) = selectValue sel"
  by (simp add: selectValue_def)


lemma handleChange_single_invalid:
  assumes "selectElement x = Some sel" "errorContainer x = Some ec" "\<not> isMultiple x"
    and "selectValue sel \<noteq> []" "selectValue sel \<notin> validOptions x"
  shows "handleChange now w (env, x) =
           ((audit ''invalid_option_detected''
               [(''name'', JStr (sel_name sel)), (''attemptedValue'', JStr (selectValue sel))] now w env,
             x\<lparr>errorContainer := Some (ec\<lparr>ec_textContent := ''Invalid option selected'', ec_hidden := False\<rparr>),
               selectElement := Some (setSelectValue [] (sel\<lparr>sel_errorClass := True\<rparr>))\<rparr>),
            None)"
  using assms by (simp add: handleChange_def showError_def withSelect_def Let_def)

lemma handleChange_single_valid:
  assumes "selectElement x = Some sel" "errorContainer x = Some ec" "\<not> isMultiple x"
    and "selectValue sel = [] \<or> selectValue sel \<in> validOptions x"
  shows "handleChange now w (env, x) =
           ((dispatchEvent ''secure-select''
               [(''name'', JStr (sel_name sel)), (''value'', JStr (selectValue sel)),
                (''tier'', JStr (tierString (securityTier w)))]
               (audit ''select_changed''
                  [(''name'', JStr (sel_name sel)), (''value'', JStr (selectValue sel))] now w env),
             x\<lparr>errorContainer := Some (ec\<lparr>ec_hidden := True\<rparr>),
               selectElement := Some (sel\<lparr>sel_errorClass := False\<rparr>)\<rparr>),
            None)"
  using assms by (auto simp: handleChange_def clearErrors_def withSelect_def Let_def)

lemma set_value_unregistered:
  "\<not> isMultiple x \<Longrightarrow> v \<notin> validOptions x \<Longrightarrow> set_value v x = x"
  by (simp add: set_value_def split: option.splits)

lemma set_value_registered:
  assumes "selectElement x = Some sel" "\<not> isMultiple x" "v \<in> validOptions x"
  shows "set_value v x = x\<lparr>selectElement := Some (setSelectValue v sel)\<rparr>"
  using assms by (simp add: set_value_def)

lemma get_value_single:
  "selectElement x = Some sel \<Longrightarrow> \<not> isMultiple x \<Longrightarrow> get_value x = selectValue sel"
  by (simp add: get_value_def)

lemma forEach_transferOption_validOptions:
  "validOptions (fst (fst (forEach transferOption ls s)))
     \<subseteq> validOptions (fst s) \<union> range (\<lambda>a. sanitizeValue (JStr a))"
proof (induction ls arbitrary: s)
  case Nil
  show ?case by simp
next
  case (Cons option ls)
  obtain x sv where s: "s = (x, sv)" by (cases s)
  obtain s1 r where step: "transferOption option (x, sv) = (s1, r)"
    by (cases "transferOption option (x, sv)")
  have s1: "validOptions (fst s1) \<subseteq> validOptions x \<union> range (\<lambda>a. sanitizeValue (JStr a))"
    using step by (auto simp: transferOption_def Let_def split: option.splits)
  show ?case
  proof (cases r)
    case None
    with Cons.IH [of s1] s step s1 show ?thesis by (auto simp: andThen_def)
  next
    case (Some e)
    with s step s1 show ?thesis by (simp add: andThen_def)
  qed
qed

lemma withSelect_validOptions: "validOptions (fst (withSelect f x)) = validOptions x"
  by (simp add: withSelect_def split: option.splits)

lemma transferOptions_validOptions:
  "validOptions (fst (transferOptions w x))
     \<subseteq> validOptions x \<union> range (\<lambda>a. sanitizeValue (JStr a))"
proof (cases "optionsTransferred x \<or> lightOptions x = []")
  case True
  then show ?thesis by (auto simp: transferOptions_def Let_def)
next
  case False
  let ?x1 = "x\<lparr>optionsTransferred := True\<rparr>"
  obtain x2 sv r where run: "forEach transferOption (lightOptions x) (?x1, []) = ((x2, sv), r)"
    by (cases "forEach transferOption (lightOptions x) (?x1, [])") auto
  have x2: "validOptions x2 \<subseteq> validOptions x \<union> range (\<lambda>a. sanitizeValue (JStr a))"
    using forEach_transferOption_validOptions [of "lightOptions x" "(?x1, [])"] run by simp
  have "validOptions (fst (transferOptions w x)) = validOptions x2"
    using False run
    by (simp add: transferOptions_def Let_def withSelect_validOptions split: option.splits)
  with x2 show ?thesis by simp
qed

text \<open>
  Claim C9, as amended. On a rendered single select, a change event never throws,
  leaves the set of valid options as it is, and leaves the value of the internal
  select empty or registered: an unregistered value is reset to the empty string and
  audited as \<^verbatim>\<open>invalid_option_detected\<close>, an empty or registered value is kept. The
  value setter leaves the widget untouched when the value is not registered; given a
  registered value it selects the first option of that value, so the select's value
  is then that value, or empty when no option has it. Hence the setter keeps the
  select's value empty or registered whenever it was so before the assignment. The
  members that \<^verbatim>\<open>addOption\<close> and \<^verbatim>\<open>#transferOptions\<close> add to the set are results of
  \<^verbatim>\<open>sanitizeValue\<close>.
\<close>

theorem select_value_registered_or_empty:
  assumes rendered: "selectElement x = Some sel" "errorContainer x = Some ec"
    and single: "\<not> isMultiple x"
  shows
  "snd (handleChange now w (env, x)) = None \<and>
   validOptions (snd (fst (handleChange now w (env, x)))) = validOptions x \<and>
   (get_value (snd (fst (handleChange now w (env, x)))) = []
      \<or> get_value (snd (fst (handleChange now w (env, x)))) \<in> validOptions x) \<and>
   (selectValue sel \<noteq> [] \<and> selectValue sel \<notin> validOptions x \<longrightarrow>
      get_value (snd (fst (handleChange now w (env, x)))) = [] \<and>
      fst (fst (handleChange now w (env, x)))
        = audit ''invalid_option_detected''
            [(''name'', JStr (sel_name sel)), (''attemptedValue'', JStr (selectValue sel))] now w env) \<and>
   (selectValue sel = [] \<or> selectValue sel \<in> validOptions x \<longrightarrow>
      get_value (snd (fst (handleChange now w (env, x)))) = selectValue sel) \<and>
   (v \<notin> validOptions x \<longrightarrow> set_value v x = x) \<and>
   (v \<in> validOptions x \<longrightarrow>
      validOptions (set_value v x) = validOptions x \<and>
      get_value (set_value v x)
        = (if list_ex (\<lambda>opt. opt_value opt = v) (sel_options sel) then v else [])) \<and>
   (get_value x = [] \<or> get_value x \<in> validOptions x \<longrightarrow>
      get_value (set_value v x) = [] \<or> get_value (set_value v x) \<in> validOptions (set_value v x)) \<and>
   validOptions (addOption a txt selected x) = insert (sanitizeValue (JStr a)) (validOptions x) \<and>
   validOptions (fst (transferOptions w x))
     \<subseteq> validOptions x \<union> range (\<lambda>a. sanitizeValue (JStr a))"
proof -
  let ?r = "handleChange now w (env, x)"
  have hc: "snd ?r = None \<and> validOptions (snd (fst ?r)) = validOptions x
      \<and> (selectValue sel \<noteq> [] \<and> selectValue sel \<notin> validOptions x \<longrightarrow>
            get_value (snd (fst ?r)) = [] \<and>
            fst (fst ?r) = audit ''invalid_option_detected''
              [(''name'', JStr (sel_name sel)), (''attemptedValue'', JStr (selectValue sel))] now w env)
      \<and> (selectValue sel = [] \<or> selectValue sel \<in> validOptions x \<longrightarrow>
            get_value (snd (fst ?r)) = selectValue sel)"
  proof (cases "selectValue sel \<noteq> [] \<and> selectValue sel \<notin> validOptions x")
    case True
    then show ?thesis
      using handleChange_single_invalid [OF rendered single, of now w env] single
      by (simp add: get_value_def selectValue_reset)
  next
    case False
    then have ok: "selectValue sel = [] \<or> selectValue sel \<in> validOptions x" by simp
    show ?thesis
      using handleChange_single_valid [OF rendered single ok, of now w env] single ok
      by (auto simp: get_value_def selectValue_errorClass)
  qed
  then have inv: "get_value (snd (fst ?r)) = [] \<or> get_value (snd (fst ?r)) \<in> validOptions x"
    by (cases "selectValue sel \<noteq> [] \<and> selectValue sel \<notin> validOptions x") auto
  have ignore: "v \<notin> validOptions x \<longrightarrow> set_value v x = x"
    using single by (simp add: set_value_unregistered)
  have accept: "v \<in> validOptions x \<longrightarrow>
      validOptions (set_value v x) = validOptions x \<and>
      get_value (set_value v x)
        = (if list_ex (\<lambda>opt. opt_value opt = v) (sel_options sel) then v else [])"
    using single rendered(1)
    by (simp add: set_value_registered get_value_def selectValue_setSelectValue)
  have keep: "get_value x = [] \<or> get_value x \<in> validOptions x \<longrightarrow>
      get_value (set_value v x) = [] \<or> get_value (set_value v x) \<in> validOptions (set_value v x)"
  proof (cases "v \<in> validOptions x")
    case True
    with accept show ?thesis by auto
  next
    case False
    with ignore show ?thesis by simp
  qed
  have added: "validOptions (addOption a txt selected x) = insert (sanitizeValue (JStr a)) (validOptions x)"
    using rendered(1) by (simp add: addOption_def Let_def)
  from hc inv ignore accept keep added transferOptions_validOptions [of w x]
  show ?thesis by blast
qed


text \<open>
  The claim as stated fails for the setter: it does not establish the property, it
  only keeps it. With two options of value \<^verbatim>\<open>x\<close>, the second one selected,
  \<^verbatim>\<open>removeOption('x')\<close> removes the first option and the value from the set; the
  select's value is still \<^verbatim>\<open>x\<close>, and assigning the unregistered \<^verbatim>\<open>y\<close> through the
  setter leaves it there.
\<close>

theorem set_value_keeps_unregistered_counterexample:
  "\<not> isMultiple (set_value ''y'' twinSelect) \<and>
   get_value (set_value ''y'' twinSelect) = ''x'' \<and>
   get_value (set_value ''y'' twinSelect) \<noteq> [] \<and>
   get_value (set_value ''y'' twinSelect) \<notin> validOptions (set_value ''y'' twinSelect)"
  by code_simp

theorem select_value_registered_or_empty_witness:
  "selectElement injectedSelect = Some (the (selectElement injectedSelect)) \<and>
   errorContainer injectedSelect = Some \<lparr>ec_textContent = [], ec_hidden = True\<rparr> \<and>
   \<not> isMultiple injectedSelect \<and>
   selectValue (the (selectElement injectedSelect)) = ''injected'' \<and>
   ''injected'' \<notin> validOptions injectedSelect \<and>
   get_value (snd (fst (handleChange 0 (fst (connectedSelect [] countryOptions))
                          (startEnv, injectedSelect)))) = [] \<and>
   ''fr'' \<notin> validOptions injectedSelect \<and>
   set_value ''fr'' injectedSelect = injectedSelect \<and>
   ''us'' \<in> validOptions injectedSelect \<and>
   get_value (set_value ''us'' injectedSelect) = ''us''"
proof -
  let ?sel = "the (selectElement injectedSelect)"
  let ?w = "fst (connectedSelect [] countryOptions)"
  have r1: "selectElement injectedSelect = Some ?sel" by code_simp
  have r2: "errorContainer injectedSelect = Some \<lparr>ec_textContent = [], ec_hidden = True\<rparr>"
    by code_simp
  have r3: "\<not> isMultiple injectedSelect" by code_simp
  have v: "selectValue ?sel = ''injected''" by code_simp
  have bad: "''injected'' \<notin> validOptions injectedSelect" by code_simp
  have fr: "''fr'' \<notin> validOptions injectedSelect" by code_simp
  have us: "''us'' \<in> validOptions injectedSelect" by code_simp
  have has: "list_ex (\<lambda>opt. opt_value opt = ''us'') (sel_options ?sel)" by code_simp
  from v bad have unreg: "selectValue ?sel \<noteq> [] \<and> selectValue ?sel \<notin> validOptions injectedSelect"
    by simp
  note t = select_value_registered_or_empty [OF r1 r2 r3, of 0 ?w startEnv]
  note reset = t [of "''fr''" "[]" "[]" False, THEN conjunct2, THEN conjunct2, THEN conjunct2,
      THEN conjunct1, THEN mp, OF unreg, THEN conjunct1]
  note ignored = t [of "''fr''" "[]" "[]" False, THEN conjunct2, THEN conjunct2, THEN conjunct2,
      THEN conjunct2, THEN conjunct2, THEN conjunct1, THEN mp, OF fr]
  note accepted = t [of "''us''" "[]" "[]" False, THEN conjunct2, THEN conjunct2, THEN conjunct2,
      THEN conjunct2, THEN conjunct2, THEN conjunct2, THEN conjunct1, THEN mp, OF us, THEN conjunct2]
  from accepted has have set_us: "get_value (set_value ''us'' injectedSelect) = ''us''"
    by (simp only: if_True)
  show ?thesis
    by (intro conjI) (rule r1, rule r2, rule r3, rule v, rule bad, rule reset, rule fr,
        rule ignored, rule us, rule set_us)
qed



lemma audit_rateLimitState:
  "audit ev data now (w\<lparr>rateLimitState := r\<rparr>) env = audit ev data now w env"
  by (simp add: audit_def auditEntry_def Let_def)

lemma handleChange_rateLimitState:
  "handleChange t (w\<lparr>rateLimitState := r\<rparr>) s = handleChange t w s"
  by (simp add: handleChange_def audit_rateLimitState cong: option.case_cong prod.case_cong if_cong)

lemma get_valid_rateLimitState:
  "get_valid (w\<lparr>rateLimitState := r\<rparr>) x = get_valid w x"
  by (cases "selectElement x") (simp_all add: get_valid_def hasAttribute_def)

lemma select_reconnect:
  assumes "initialized w"
  shows "connectedCallback quota checks SecureSelect_methods
           (SecureSelect_disconnectedCallback now (w, x))
         = (w\<lparr>rateLimitState := \<lparr>count = 0, windowStart = now\<rparr>\<rparr>, x)"
  using assms
  by (simp add: SecureSelect_disconnectedCallback_def disconnectedCallback_def connectedCallback_def)


text \<open>
  Claim C10. \<^verbatim>\<open>disconnectedCallback\<close> of the select changes nothing of the select's
  own state, so the set of valid options is what it was; the base state gets the base
  teardown. When an initialised select is disconnected and connected again, only the
  rate-limiter state of the base differs from before: the set of valid options, the
  outcome of a change event and of the \<^verbatim>\<open>valid\<close> getter are the same, and a change
  to a registered value is accepted, with the value kept and no error shown.
\<close>

theorem disconnect_keeps_validOptions:
  "snd (SecureSelect_disconnectedCallback now (w, x)) = x \<and>
   validOptions (snd (SecureSelect_disconnectedCallback now (w, x))) = validOptions x \<and>
   fst (SecureSelect_disconnectedCallback now (w, x)) = disconnectedCallback now w \<and>
   (initialized w \<longrightarrow>
      connectedCallback quota checks SecureSelect_methods
          (SecureSelect_disconnectedCallback now (w, x))
        = (w\<lparr>rateLimitState := \<lparr>count = 0, windowStart = now\<rparr>\<rparr>, x) \<and>
      validOptions (snd (connectedCallback quota checks SecureSelect_methods
          (SecureSelect_disconnectedCallback now (w, x)))) = validOptions x \<and>
      handleChange t
          (fst (connectedCallback quota checks SecureSelect_methods
                  (SecureSelect_disconnectedCallback now (w, x))))
          (env, snd (connectedCallback quota checks SecureSelect_methods
                       (SecureSelect_disconnectedCallback now (w, x))))
        = handleChange t w (env, x) \<and>
      get_valid
          (fst (connectedCallback quota checks SecureSelect_methods
                  (SecureSelect_disconnectedCallback now (w, x))))
          (snd (connectedCallback quota checks SecureSelect_methods
                  (SecureSelect_disconnectedCallback now (w, x))))
        = get_valid w x \<and>
      (selectElement x = Some sel \<and> errorContainer x = Some ec \<and> \<not> isMultiple x \<and>
       selectValue sel \<in> validOptions x \<longrightarrow>
         snd (handleChange t
                (fst (connectedCallback quota checks SecureSelect_methods
                        (SecureSelect_disconnectedCallback now (w, x))))
                (env, snd (connectedCallback quota checks SecureSelect_methods
                             (SecureSelect_disconnectedCallback now (w, x))))) = None \<and>
         get_value (snd (fst (handleChange t
                (fst (connectedCallback quota checks SecureSelect_methods
                        (SecureSelect_disconnectedCallback now (w, x))))
                (env, snd (connectedCallback quota checks SecureSelect_methods
                             (SecureSelect_disconnectedCallback now (w, x))))))) = selectValue sel \<and>
         sel_errorClass (the (selectElement (snd (fst (handleChange t
                (fst (connectedCallback quota checks SecureSelect_methods
                        (SecureSelect_disconnectedCallback now (w, x))))
                (env, snd (connectedCallback quota checks SecureSelect_methods
                             (SecureSelect_disconnectedCallback now (w, x))))))))) = False))"
proof -
  let ?s = "connectedCallback quota checks SecureSelect_methods
              (SecureSelect_disconnectedCallback now (w, x))"
  have frame: "snd (SecureSelect_disconnectedCallback now (w, x)) = x"
    "fst (SecureSelect_disconnectedCallback now (w, x)) = disconnectedCallback now w"
    by (simp_all add: SecureSelect_disconnectedCallback_def)
  have cycle: "?s = (w\<lparr>rateLimitState := \<lparr>count = 0, windowStart = now\<rparr>\<rparr>, x)" if "initialized w"
    using that by (rule select_reconnect)
  have same: "handleChange t (fst ?s) (env, snd ?s) = handleChange t w (env, x)" if "initialized w"
    by (simp add: cycle [OF that] handleChange_rateLimitState)
  have valid_same: "get_valid (fst ?s) (snd ?s) = get_valid w x" if "initialized w"
    by (simp add: cycle [OF that] get_valid_rateLimitState)
  have accepted: "snd (handleChange t w (env, x)) = None \<and>
      get_value (snd (fst (handleChange t w (env, x)))) = selectValue sel \<and>
      sel_errorClass (the (selectElement (snd (fst (handleChange t w (env, x)))))) = False"
    if "selectElement x = Some sel \<and> errorContainer x = Some ec \<and> \<not> isMultiple x \<and>
        selectValue sel \<in> validOptions x"
    using that
    by (auto simp: handleChange_def clearErrors_def withSelect_def get_value_def selectValue_def
        Let_def)
  show ?thesis
    using frame cycle same valid_same accepted by simp
qed


theorem disconnect_keeps_validOptions_witness:
  "initialized (fst (connectedSelect [] countryOptions)) \<and>
   ''uk'' \<in> validOptions countrySelect \<and>
   selectValue (the (selectElement countrySelect)) = ''uk'' \<and>
   validOptions (snd (connectedCallback testQuota testChecks SecureSelect_methods
      (SecureSelect_disconnectedCallback 5000 (fst (connectedSelect [] countryOptions), countrySelect))))
     = validOptions countrySelect \<and>
   get_value (snd (fst (handleChange 6000
      (fst (connectedCallback testQuota testChecks SecureSelect_methods
         (SecureSelect_disconnectedCallback 5000 (fst (connectedSelect [] countryOptions), countrySelect))))
      (startEnv,
       snd (connectedCallback testQuota testChecks SecureSelect_methods
         (SecureSelect_disconnectedCallback 5000 (fst (connectedSelect [] countryOptions), countrySelect))))))) = ''uk''"
proof -
  let ?w = "fst (connectedSelect [] countryOptions)"
  let ?sel = "the (selectElement countrySelect)"
  have init: "initialized ?w"
    unfolding connectedSelect_def by (rule connectedCallback_initialized)
  have uk: "''uk'' \<in> validOptions countrySelect" by code_simp
  have v: "selectValue ?sel = ''uk''" by code_simp
  have rendered: "selectElement countrySelect = Some ?sel \<and>
      errorContainer countrySelect = Some \<lparr>ec_textContent = [], ec_hidden = True\<rparr> \<and>
      \<not> isMultiple countrySelect \<and> selectValue ?sel \<in> validOptions countrySelect"
    by code_simp
  note t = disconnect_keeps_validOptions
    [where w = ?w and x = countrySelect and now = 5000 and quota = testQuota and checks = testChecks
       and t = 6000 and env = startEnv and sel = ?sel
       and ec = "\<lparr>ec_textContent = [], ec_hidden = True\<rparr>",
     THEN conjunct2, THEN conjunct2, THEN conjunct2, THEN mp, OF init]
  note kept = t [THEN conjunct2, THEN conjunct1]
  note accepted = t [THEN conjunct2, THEN conjunct2, THEN conjunct2, THEN conjunct2, THEN mp,
      OF rendered, THEN conjunct2, THEN conjunct1]
  from accepted v have picked: "get_value (snd (fst (handleChange 6000
      (fst (connectedCallback testQuota testChecks SecureSelect_methods
         (SecureSelect_disconnectedCallback 5000 (?w, countrySelect))))
      (startEnv,
       snd (connectedCallback testQuota testChecks SecureSelect_methods
         (SecureSelect_disconnectedCallback 5000 (?w, countrySelect))))))) = ''uk''"
    by (rule trans)
  show ?thesis
    by (intro conjI) (rule init, rule uk, rule v, rule kept, rule picked)
qed


end
